theory Spec2Isabelle
  imports Main "HOL-Library.Word"
begin

section \<open>Data model\<close>

text \<open>
  Python exceptions as values. The source raises \<^verbatim>\<open>RuntimeError\<close> from the constructor
  and \<^verbatim>\<open>ValueError\<close> from the realness guard of the two transposes; the text is the
  message of the exception. The collaborators (numpy, the grid partition, the reshaper)
  report their failures through the same type.
\<close>

datatype error = RuntimeError string | ValueError string

text \<open>
  Element types of a numpy array. An element carries a real and an imaginary part;
  \<^verbatim>\<open>numpy.isreal\<close> tests the imaginary part of each element against zero, whatever the
  element type of the array is.
\<close>

datatype dtype = Int32 | Int64 | Float32 | Float64 | Complex64 | Complex128

datatype 'v elem = Elem (re: 'v) (im: 'v)

text \<open>
  A numpy array: its shape, its element type and its elements in Fortran order (the
  first axis varies fastest), which is the only order the class accepts.
\<close>

record 'v ndarray =
  shape :: "nat list"
  dtype :: dtype
  elems :: "'v elem list"

definition ndim :: "'v ndarray \<Rightarrow> nat" where
  "ndim a = length (shape a)"

definition isreal :: "('v::zero) elem \<Rightarrow> bool" where
  "isreal e = (im e = 0)"

text \<open>\<^verbatim>\<open>numpy.all(numpy.isreal(data))\<close>.\<close>

definition all_isreal :: "('v::zero) ndarray \<Rightarrow> bool" where
  "all_isreal data = list_all isreal (elems data)"

type_synonym int32 = "32 word"

text \<open>
  \<^verbatim>\<open>numpy.empty(shape, dtype, order='F')\<close>: a negative extent raises \<^verbatim>\<open>ValueError\<close>. The
  contents of the fresh buffer are whatever the memory holds; they are the parameter
  \<open>g\<close> (position to element).
\<close>

definition numpy_empty :: "(nat \<Rightarrow> 'v elem) \<Rightarrow> int list \<Rightarrow> dtype \<Rightarrow> error + 'v ndarray" where
  "numpy_empty g shp dt =
     (if list_ex (\<lambda>n. n < 0) shp then Inl (ValueError ''negative dimensions are not allowed'')
      else Inr \<lparr>shape = map nat shp, dtype = dt,
                elems = map g [0 ..< prod_list (map nat shp)]\<rparr>)"

text \<open>
  A procedure that fills the buffer it is given writes in place: the buffer keeps its
  shape, its element type and its number of elements.
\<close>

definition write_elems :: "'v elem list \<Rightarrow> 'v elem list \<Rightarrow> 'v elem list" where
  "write_elems old new = take (length old) (new @ drop (length new) old)"

text \<open>
  The view \<^verbatim>\<open>data_to_transpose[:, :, :, ic]\<close> of a four-dimensional Fortran-ordered
  buffer: component \<open>ic\<close> is one contiguous run of elements.
\<close>

definition component_view :: "'v ndarray \<Rightarrow> nat \<Rightarrow> 'v ndarray" where
  "component_view buf ic =
     (let n = prod_list (butlast (shape buf))
      in \<lparr>shape = butlast (shape buf), dtype = dtype buf,
           elems = take n (drop (ic * n) (elems buf))\<rparr>)"

definition write_component :: "'v ndarray \<Rightarrow> nat \<Rightarrow> 'v elem list \<Rightarrow> 'v ndarray" where
  "write_component buf ic new =
     (let n = prod_list (butlast (shape buf))
      in buf\<lparr>elems := take (ic * n) (elems buf)
                        @ write_elems (take n (drop (ic * n) (elems buf))) new
                        @ drop (ic * n + n) (elems buf)\<rparr>)"

subsection \<open>The grid partition\<close>

text \<open>
  The \<^verbatim>\<open>t3d\<close> object of \<^verbatim>\<open>floatpy.parallel.t3dmod\<close> is a constructor argument. Each getter
  fills an array of three 32-bit integers (1-based bounds); each of the six directional
  transposes reads a three-dimensional array and fills the output buffer it is given,
  or fails.
\<close>

type_synonym 'v transpose_op = "'v ndarray \<Rightarrow> 'v ndarray \<Rightarrow> error + 'v elem list"

record 'v t3d =
  get_sz3d :: "int32 list"
  get_st3d :: "int32 list"
  get_en3d :: "int32 list"
  get_szx :: "int32 list"
  get_stx :: "int32 list"
  get_enx :: "int32 list"
  get_szy :: "int32 list"
  get_sty :: "int32 list"
  get_eny :: "int32 list"
  get_szz :: "int32 list"
  get_stz :: "int32 list"
  get_enz :: "int32 list"
  transpose_3d_to_x :: "'v transpose_op"
  transpose_3d_to_y :: "'v transpose_op"
  transpose_3d_to_z :: "'v transpose_op"
  transpose_x_to_3d :: "'v transpose_op"
  transpose_y_to_3d :: "'v transpose_op"
  transpose_z_to_3d :: "'v transpose_op"

text \<open>What the caller hands to the constructor as \<^verbatim>\<open>grid_partition\<close>.\<close>

datatype 'v pyobject = T3d "'v t3d" | OtherObject

text \<open>
  A getter writes into \<^verbatim>\<open>numpy.empty(3, dtype=numpy.int32)\<close>: three 32-bit slots, filled
  from the front.
\<close>

definition fill3 :: "int32 list \<Rightarrow> int32 list" where
  "fill3 vals = take 3 (vals @ replicate 3 0)"

subsection \<open>The reshaper\<close>

text \<open>
  Modelled from the spec: \<^verbatim>\<open>floatpy.utilities.data_reshaper.DataReshaper\<close> is not among
  the sources. Section 4.4 of the specification gives its contract: \<^verbatim>\<open>reshapeTo3d\<close>
  extracts the three-dimensional slice of one component (a two-dimensional one padded
  with a unit axis) in the array's own element order, \<^verbatim>\<open>reshapeFrom3d\<close> is the inverse
  and re-attaches the component axis of a four-dimensional buffer; both keep every value.
  An input outside that contract (another number of axes, a component index out of
  range, a padded axis that is not a unit axis) fails. Only the Fortran order, the one
  the class asks for, is modelled.
\<close>

datatype data_order = C_order | F_order

record DataReshaper =
  dr_dim :: int
  dr_data_order :: data_order

definition reshapeTo3d :: "DataReshaper \<Rightarrow> 'v ndarray \<Rightarrow> nat option \<Rightarrow> error + 'v ndarray" where
  "reshapeTo3d r data component_idx =
     (case component_idx of
        None \<Rightarrow>
          if int (ndim data) = dr_dim r \<and> ndim data \<le> 3
          then Inr (data\<lparr>shape := shape data @ replicate (3 - ndim data) 1\<rparr>)
          else Inl (RuntimeError ''Dimension of data is invalid!'')
      | Some c \<Rightarrow>
          if int (ndim data) = dr_dim r + 1 \<and> ndim data \<le> 4 \<and> c < last (shape data)
          then Inr \<lparr>shape = butlast (shape data) @ replicate (4 - ndim data) 1,
                    dtype = dtype data,
                    elems = elems (component_view data c)\<rparr>
          else Inl (RuntimeError ''Dimension of data is invalid!''))"

definition reshapeFrom3d :: "DataReshaper \<Rightarrow> 'v ndarray \<Rightarrow> error + 'v ndarray" where
  "reshapeFrom3d r data =
     (let d = nat (dr_dim r)
      in if ndim data = 3 \<and> drop d (shape data) = replicate (3 - d) 1
         then Inr (data\<lparr>shape := take d (shape data)\<rparr>)
         else if ndim data = 4 \<and> drop d (butlast (shape data)) = replicate (3 - d) 1
         then Inr (data\<lparr>shape := take d (shape data) @ [last (shape data)]\<rparr>)
         else Inl (RuntimeError ''Dimension of data is invalid!''))"

subsection \<open>Calls to the collaborators\<close>

text \<open>
  A run of the constructor or of a transpose is the list of calls it made to its
  collaborators, in order, with what it returned or raised.
\<close>

datatype t3d_getter =
  Get_sz3d | Get_st3d | Get_en3d | Get_szx | Get_stx | Get_enx
  | Get_szy | Get_sty | Get_eny | Get_szz | Get_stz | Get_enz

datatype t3d_transpose =
  Transpose_3d_to_x | Transpose_3d_to_y | Transpose_3d_to_z
  | Transpose_x_to_3d | Transpose_y_to_3d | Transpose_z_to_3d

datatype 'v event =
  T3dGet t3d_getter
  | NumpyEmpty "int list" dtype
  | ReshapeTo3d "'v ndarray" "nat option"
  | T3dTranspose t3d_transpose "'v ndarray" "'v ndarray"
  | ReshapeFrom3d "'v ndarray"

type_synonym ('v, 'a) run = "'v event list \<times> (error + 'a)"

definition call :: "'v event \<Rightarrow> error + 'a \<Rightarrow> ('v, 'a) run" where
  "call ev r = ([ev], r)"

text \<open>Sequencing: an exception ends the run; the calls made so far stay made.\<close>

definition and_then :: "('v, 'a) run \<Rightarrow> ('a \<Rightarrow> ('v, 'b) run) \<Rightarrow> ('v, 'b) run" where
  "and_then m f =
     (case m of
        (tr, Inl e) \<Rightarrow> (tr, Inl e)
      | (tr, Inr a) \<Rightarrow> (case f a of (tr', r) \<Rightarrow> (tr @ tr', r)))"

section \<open>The class TransposeWrapper\<close>

record 'v TransposeWrapper =
  self_grid_partition :: "'v t3d"
  self_dim :: int
  self_direction :: int
  self_3d_size :: "int32 list"
  self_3d_lo :: "int32 list"
  self_3d_hi :: "int32 list"
  self_pencil_size :: "int32 list"
  self_pencil_lo :: "int32 list"
  self_pencil_hi :: "int32 list"
  self_data_reshaper :: DataReshaper

text \<open>
  \<^verbatim>\<open>__init__(self, grid_partition, direction, dimension=3)\<close>. The four guards come first,
  in the order of the source; the getters are reached only after them. The pencil
  getters are those of the chain \<^verbatim>\<open>if direction == 0 ... elif direction == 1 ... else\<close>.
  The subtraction of 1 is on 32-bit integers.
\<close>

definition get_pencil_sz :: "'v t3d \<Rightarrow> int \<Rightarrow> int32 list" where
  "get_pencil_sz gp direction =
     (if direction = 0 then get_szx gp else if direction = 1 then get_szy gp else get_szz gp)"

definition get_pencil_st :: "'v t3d \<Rightarrow> int \<Rightarrow> int32 list" where
  "get_pencil_st gp direction =
     (if direction = 0 then get_stx gp else if direction = 1 then get_sty gp else get_stz gp)"

definition get_pencil_en :: "'v t3d \<Rightarrow> int \<Rightarrow> int32 list" where
  "get_pencil_en gp direction =
     (if direction = 0 then get_enx gp else if direction = 1 then get_eny gp else get_enz gp)"

definition init_getters :: "int \<Rightarrow> t3d_getter list" where
  "init_getters direction =
     [Get_sz3d, Get_st3d, Get_en3d]
     @ (if direction = 0 then [Get_szx, Get_stx, Get_enx]
        else if direction = 1 then [Get_szy, Get_sty, Get_eny]
        else [Get_szz, Get_stz, Get_enz])"

definition TransposeWrapper_init ::
  "'v pyobject \<Rightarrow> int \<Rightarrow> int \<Rightarrow> ('v, 'v TransposeWrapper) run" where
  "TransposeWrapper_init grid_partition direction dimension =
     (case grid_partition of
        OtherObject \<Rightarrow>
          ([], Inl (RuntimeError ''The given grid partition object is not an instance of the t3d class!''))
      | T3d gp \<Rightarrow>
          if direction < 0 \<or> direction > 2
          then ([], Inl (RuntimeError ''Direction < 0 or > 2 is invalid!''))
          else if dimension < 2 \<or> dimension > 3
          then ([], Inl (RuntimeError ''Only data with dimension of 2 or 3 can be transposed!''))
          else if direction \<ge> dimension
          then ([], Inl (RuntimeError ''Direction to transpose is not allowed with the dimensinality of data!''))
          else
            (map T3dGet (init_getters direction),
             Inr \<lparr>self_grid_partition = gp,
                  self_dim = dimension,
                  self_direction = direction,
                  self_3d_size = fill3 (get_sz3d gp),
                  self_3d_lo = map (\<lambda>x. x - 1) (fill3 (get_st3d gp)),
                  self_3d_hi = map (\<lambda>x. x - 1) (fill3 (get_en3d gp)),
                  self_pencil_size = fill3 (get_pencil_sz gp direction),
                  self_pencil_lo = map (\<lambda>x. x - 1) (fill3 (get_pencil_st gp direction)),
                  self_pencil_hi = map (\<lambda>x. x - 1) (fill3 (get_pencil_en gp direction)),
                  self_data_reshaper = \<lparr>dr_dim = dimension, dr_data_order = F_order\<rparr>\<rparr>))"

text \<open>The properties \<^verbatim>\<open>full_pencil\<close> and \<^verbatim>\<open>full_pencil_size\<close>: slices \<^verbatim>\<open>[0:self._dim]\<close>.\<close>

definition full_pencil :: "'v TransposeWrapper \<Rightarrow> int32 list \<times> int32 list" where
  "full_pencil w =
     (take (nat (self_dim w)) (self_pencil_lo w), take (nat (self_dim w)) (self_pencil_hi w))"

definition full_pencil_size :: "'v TransposeWrapper \<Rightarrow> int32 list" where
  "full_pencil_size w = take (nat (self_dim w)) (self_pencil_size w)"

subsection \<open>transposeToPencil\<close>

text \<open>
  The chain \<^verbatim>\<open>if self._direction == 0 ... elif self._direction == 1 ... else\<close> that picks
  the transpose of the grid partition; it stands in both branches of the method.
\<close>

definition to_pencil_call ::
  "'v TransposeWrapper \<Rightarrow> 'v ndarray \<Rightarrow> 'v ndarray \<Rightarrow> ('v, 'v elem list) run" where
  "to_pencil_call w data_3d out =
     (if self_direction w = 0
      then call (T3dTranspose Transpose_3d_to_x data_3d out)
                (transpose_3d_to_x (self_grid_partition w) data_3d out)
      else if self_direction w = 1
      then call (T3dTranspose Transpose_3d_to_y data_3d out)
                (transpose_3d_to_y (self_grid_partition w) data_3d out)
      else call (T3dTranspose Transpose_3d_to_z data_3d out)
                (transpose_3d_to_z (self_grid_partition w) data_3d out))"

text \<open>The loop \<^verbatim>\<open>for ic in range(num_components)\<close>, over the components still to do.\<close>

fun to_pencil_loop ::
  "'v TransposeWrapper \<Rightarrow> 'v ndarray \<Rightarrow> nat list \<Rightarrow> 'v ndarray \<Rightarrow> ('v, 'v ndarray) run" where
  "to_pencil_loop w data [] data_to_transpose = ([], Inr data_to_transpose)"
| "to_pencil_loop w data (ic # ics) data_to_transpose =
     and_then (call (ReshapeTo3d data (Some ic))
                    (reshapeTo3d (self_data_reshaper w) data (Some ic))) (\<lambda>data_3d.
     and_then (to_pencil_call w data_3d (component_view data_to_transpose ic)) (\<lambda>new.
     to_pencil_loop w data ics (write_component data_to_transpose ic new)))"

text \<open>The branch \<^verbatim>\<open>if num_components == 1\<close>.\<close>

definition transposeToPencil_single ::
  "'v TransposeWrapper \<Rightarrow> (nat \<Rightarrow> 'v elem) \<Rightarrow> 'v ndarray \<Rightarrow> ('v, 'v ndarray) run" where
  "transposeToPencil_single w g data =
     and_then (call (NumpyEmpty (map sint (self_pencil_size w)) (dtype data))
                    (numpy_empty g (map sint (self_pencil_size w)) (dtype data))) (\<lambda>data_to_transpose.
     and_then (call (ReshapeTo3d data None)
                    (reshapeTo3d (self_data_reshaper w) data None)) (\<lambda>data_3d.
     and_then (to_pencil_call w data_3d data_to_transpose) (\<lambda>new.
     (let filled = data_to_transpose\<lparr>elems := write_elems (elems data_to_transpose) new\<rparr>
      in call (ReshapeFrom3d filled) (reshapeFrom3d (self_data_reshaper w) filled)))))"

text \<open>The branch \<^verbatim>\<open>else\<close>: one buffer with a trailing component axis.\<close>

definition transposeToPencil_multi ::
  "'v TransposeWrapper \<Rightarrow> (nat \<Rightarrow> 'v elem) \<Rightarrow> 'v ndarray \<Rightarrow> nat \<Rightarrow> ('v, 'v ndarray) run" where
  "transposeToPencil_multi w g data num_components =
     and_then (call (NumpyEmpty (map sint (self_pencil_size w) @ [int num_components]) (dtype data))
                    (numpy_empty g (map sint (self_pencil_size w) @ [int num_components]) (dtype data)))
       (\<lambda>data_to_transpose.
     and_then (to_pencil_loop w data [0 ..< num_components] data_to_transpose) (\<lambda>filled.
     call (ReshapeFrom3d filled) (reshapeFrom3d (self_data_reshaper w) filled)))"

text \<open>
  \<^verbatim>\<open>transposeToPencil(self, data)\<close>. The variable \<^verbatim>\<open>shape_3d\<close> is computed as in the source
  and, as in the source, never read. \<open>g\<close> is the content of the memory that
  \<^verbatim>\<open>numpy.empty\<close> hands out.
\<close>

definition transposeToPencil ::
  "('v::zero) TransposeWrapper \<Rightarrow> (nat \<Rightarrow> 'v elem) \<Rightarrow> 'v ndarray \<Rightarrow> ('v, 'v ndarray) run" where
  "transposeToPencil w g data =
     (if \<not> all_isreal data
      then ([], Inl (ValueError ''The given data is complex! Only real data can be transposed.''))
      else
        (let num_components =
               (if int (ndim data) = self_dim w + 1 then shape data ! nat (self_dim w) else 1);
             shape_3d = take (nat (self_dim w)) (shape data);
             shape_3d = (if self_dim w = 2 then shape_3d @ [1] else shape_3d)
         in if num_components = 1
            then transposeToPencil_single w g data
            else transposeToPencil_multi w g data num_components))"

subsection \<open>transposeFromPencil\<close>

definition from_pencil_call ::
  "'v TransposeWrapper \<Rightarrow> 'v ndarray \<Rightarrow> 'v ndarray \<Rightarrow> ('v, 'v elem list) run" where
  "from_pencil_call w data_pencil out =
     (if self_direction w = 0
      then call (T3dTranspose Transpose_x_to_3d data_pencil out)
                (transpose_x_to_3d (self_grid_partition w) data_pencil out)
      else if self_direction w = 1
      then call (T3dTranspose Transpose_y_to_3d data_pencil out)
                (transpose_y_to_3d (self_grid_partition w) data_pencil out)
      else call (T3dTranspose Transpose_z_to_3d data_pencil out)
                (transpose_z_to_3d (self_grid_partition w) data_pencil out))"

fun from_pencil_loop ::
  "'v TransposeWrapper \<Rightarrow> 'v ndarray \<Rightarrow> nat list \<Rightarrow> 'v ndarray \<Rightarrow> ('v, 'v ndarray) run" where
  "from_pencil_loop w data [] data_to_transpose = ([], Inr data_to_transpose)"
| "from_pencil_loop w data (ic # ics) data_to_transpose =
     and_then (call (ReshapeTo3d data (Some ic))
                    (reshapeTo3d (self_data_reshaper w) data (Some ic))) (\<lambda>data_pencil.
     and_then (from_pencil_call w data_pencil (component_view data_to_transpose ic)) (\<lambda>new.
     from_pencil_loop w data ics (write_component data_to_transpose ic new)))"

definition transposeFromPencil_single ::
  "'v TransposeWrapper \<Rightarrow> (nat \<Rightarrow> 'v elem) \<Rightarrow> 'v ndarray \<Rightarrow> ('v, 'v ndarray) run" where
  "transposeFromPencil_single w g data =
     and_then (call (NumpyEmpty (map sint (self_3d_size w)) (dtype data))
                    (numpy_empty g (map sint (self_3d_size w)) (dtype data))) (\<lambda>data_to_transpose.
     and_then (call (ReshapeTo3d data None)
                    (reshapeTo3d (self_data_reshaper w) data None)) (\<lambda>data_pencil.
     and_then (from_pencil_call w data_pencil data_to_transpose) (\<lambda>new.
     (let filled = data_to_transpose\<lparr>elems := write_elems (elems data_to_transpose) new\<rparr>
      in call (ReshapeFrom3d filled) (reshapeFrom3d (self_data_reshaper w) filled)))))"

definition transposeFromPencil_multi ::
  "'v TransposeWrapper \<Rightarrow> (nat \<Rightarrow> 'v elem) \<Rightarrow> 'v ndarray \<Rightarrow> nat \<Rightarrow> ('v, 'v ndarray) run" where
  "transposeFromPencil_multi w g data num_components =
     and_then (call (NumpyEmpty (map sint (self_3d_size w) @ [int num_components]) (dtype data))
                    (numpy_empty g (map sint (self_3d_size w) @ [int num_components]) (dtype data)))
       (\<lambda>data_to_transpose.
     and_then (from_pencil_loop w data [0 ..< num_components] data_to_transpose) (\<lambda>filled.
     call (ReshapeFrom3d filled) (reshapeFrom3d (self_data_reshaper w) filled)))"

text \<open>\<^verbatim>\<open>transposeFromPencil(self, data)\<close>; \<^verbatim>\<open>shape_pencil\<close> is never read either.\<close>

definition transposeFromPencil ::
  "('v::zero) TransposeWrapper \<Rightarrow> (nat \<Rightarrow> 'v elem) \<Rightarrow> 'v ndarray \<Rightarrow> ('v, 'v ndarray) run" where
  "transposeFromPencil w g data =
     (if \<not> all_isreal data
      then ([], Inl (ValueError ''The given data is complex! Only real data can be transposed.''))
      else
        (let num_components =
               (if int (ndim data) = self_dim w + 1 then shape data ! nat (self_dim w) else 1);
             shape_pencil = take (nat (self_dim w)) (shape data);
             shape_pencil = (if self_dim w = 2 then shape_pencil @ [1] else shape_pencil)
         in if num_components = 1
            then transposeFromPencil_single w g data
            else transposeFromPencil_multi w g data num_components))"

subsection \<open>The object after a call\<close>



section \<open>What the two methods share\<close>

text \<open>
  The two transposes are the same text up to the cached block size and the transpose of
  the grid partition that the chain on \<^verbatim>\<open>self._direction\<close> picks. The definitions of this
  section name that common skeleton; the lemmas \<open>transposeToPencil_eq\<close> and
  \<open>transposeFromPencil_eq\<close> show that each method is an instance of it.
\<close>

text \<open>
  Component \<open>c\<close> of a Fortran-ordered element list with \<open>n\<close> elements per
  component.
\<close>

definition chunk :: "nat \<Rightarrow> nat \<Rightarrow> 'a list \<Rightarrow> 'a list" where
  "chunk n c xs = take n (drop (c * n) xs)"

text \<open>
  What the chain on \<^verbatim>\<open>self._direction\<close> picks in each method: the transpose by name and
  as the method of the grid partition.
\<close>

definition to_pencil_op :: "int \<Rightarrow> t3d_transpose" where
  "to_pencil_op direction =
     (if direction = 0 then Transpose_3d_to_x
      else if direction = 1 then Transpose_3d_to_y else Transpose_3d_to_z)"

definition to_pencil_fn :: "'v t3d \<Rightarrow> int \<Rightarrow> 'v transpose_op" where
  "to_pencil_fn gp direction =
     (if direction = 0 then transpose_3d_to_x gp
      else if direction = 1 then transpose_3d_to_y gp else transpose_3d_to_z gp)"

definition from_pencil_op :: "int \<Rightarrow> t3d_transpose" where
  "from_pencil_op direction =
     (if direction = 0 then Transpose_x_to_3d
      else if direction = 1 then Transpose_y_to_3d else Transpose_z_to_3d)"

definition from_pencil_fn :: "'v t3d \<Rightarrow> int \<Rightarrow> 'v transpose_op" where
  "from_pencil_fn gp direction =
     (if direction = 0 then transpose_x_to_3d gp
      else if direction = 1 then transpose_y_to_3d gp else transpose_z_to_3d gp)"

text \<open>One call, the loop over the components and the two branches, for any transpose.\<close>

definition transpose_call ::
  "t3d_transpose \<Rightarrow> 'v transpose_op \<Rightarrow> 'v ndarray \<Rightarrow> 'v ndarray \<Rightarrow> ('v, 'v elem list) run" where
  "transpose_call op fn a out = call (T3dTranspose op a out) (fn a out)"

fun transpose_loop ::
  "t3d_transpose \<Rightarrow> 'v transpose_op \<Rightarrow> DataReshaper \<Rightarrow> 'v ndarray \<Rightarrow> nat list \<Rightarrow> 'v ndarray
     \<Rightarrow> ('v, 'v ndarray) run" where
  "transpose_loop op fn r data [] buf = ([], Inr buf)"
| "transpose_loop op fn r data (ic # ics) buf =
     and_then (call (ReshapeTo3d data (Some ic)) (reshapeTo3d r data (Some ic))) (\<lambda>a.
     and_then (transpose_call op fn a (component_view buf ic)) (\<lambda>new.
     transpose_loop op fn r data ics (write_component buf ic new)))"

definition transpose_single ::
  "t3d_transpose \<Rightarrow> 'v transpose_op \<Rightarrow> DataReshaper \<Rightarrow> int32 list \<Rightarrow> (nat \<Rightarrow> 'v elem)
     \<Rightarrow> 'v ndarray \<Rightarrow> ('v, 'v ndarray) run" where
  "transpose_single op fn r sizes g data =
     and_then (call (NumpyEmpty (map sint sizes) (dtype data))
                    (numpy_empty g (map sint sizes) (dtype data))) (\<lambda>buf.
     and_then (call (ReshapeTo3d data None) (reshapeTo3d r data None)) (\<lambda>a.
     and_then (transpose_call op fn a buf) (\<lambda>new.
     (let filled = buf\<lparr>elems := write_elems (elems buf) new\<rparr>
      in call (ReshapeFrom3d filled) (reshapeFrom3d r filled)))))"

definition transpose_multi ::
  "t3d_transpose \<Rightarrow> 'v transpose_op \<Rightarrow> DataReshaper \<Rightarrow> int32 list \<Rightarrow> (nat \<Rightarrow> 'v elem)
     \<Rightarrow> 'v ndarray \<Rightarrow> nat \<Rightarrow> ('v, 'v ndarray) run" where
  "transpose_multi op fn r sizes g data num_components =
     and_then (call (NumpyEmpty (map sint sizes @ [int num_components]) (dtype data))
                    (numpy_empty g (map sint sizes @ [int num_components]) (dtype data))) (\<lambda>buf.
     and_then (transpose_loop op fn r data [0 ..< num_components] buf) (\<lambda>filled.
     call (ReshapeFrom3d filled) (reshapeFrom3d r filled)))"

text \<open>The transpose calls of a run: which transpose, on which input.\<close>

fun transposes :: "'v event list \<Rightarrow> (t3d_transpose \<times> 'v ndarray) list" where
  "transposes [] = []"
| "transposes (T3dTranspose op a out # tr) = (op, a) # transposes tr"
| "transposes (ev # tr) = transposes tr"

text \<open>
  A cached block size read as a shape, the buffer that \<^verbatim>\<open>numpy.empty\<close> returns for a
  shape without negative extents, and the component count of both methods
  (\<^verbatim>\<open>num_components\<close> in the source).
\<close>

definition block_shape :: "int32 list \<Rightarrow> nat list" where
  "block_shape sizes = map (\<lambda>n. nat (sint n)) sizes"

definition fresh :: "(nat \<Rightarrow> 'v elem) \<Rightarrow> nat list \<Rightarrow> dtype \<Rightarrow> 'v ndarray" where
  "fresh g shp dt = \<lparr>shape = shp, dtype = dt, elems = map g [0 ..< prod_list shp]\<rparr>"

definition num_components :: "int \<Rightarrow> 'v ndarray \<Rightarrow> nat" where
  "num_components dim data = (if int (ndim data) = dim + 1 then shape data ! nat dim else 1)"

text \<open>
  What a run shows of the calls to the reshaper, and which collaborator an exception
  came from: \<open>raised_by\<close> holds of a call and an error when that call, made again,
  returns that error.
\<close>

fun reshape_indices :: "'v event list \<Rightarrow> nat option list" where
  "reshape_indices [] = []"
| "reshape_indices (ReshapeTo3d a c # tr) = c # reshape_indices tr"
| "reshape_indices (ev # tr) = reshape_indices tr"

definition t3d_method :: "'v t3d \<Rightarrow> t3d_transpose \<Rightarrow> 'v transpose_op" where
  "t3d_method gp op =
     (case op of
        Transpose_3d_to_x \<Rightarrow> transpose_3d_to_x gp
      | Transpose_3d_to_y \<Rightarrow> transpose_3d_to_y gp
      | Transpose_3d_to_z \<Rightarrow> transpose_3d_to_z gp
      | Transpose_x_to_3d \<Rightarrow> transpose_x_to_3d gp
      | Transpose_y_to_3d \<Rightarrow> transpose_y_to_3d gp
      | Transpose_z_to_3d \<Rightarrow> transpose_z_to_3d gp)"

definition raised_by ::
  "'v TransposeWrapper \<Rightarrow> (nat \<Rightarrow> 'v elem) \<Rightarrow> 'v event \<Rightarrow> error \<Rightarrow> bool" where
  "raised_by w g ev e =
     (case ev of
        T3dGet x \<Rightarrow> False
      | NumpyEmpty shp dt \<Rightarrow> numpy_empty g shp dt = Inl e
      | ReshapeTo3d a c \<Rightarrow> reshapeTo3d (self_data_reshaper w) a c = Inl e
      | T3dTranspose op a out \<Rightarrow> t3d_method (self_grid_partition w) op a out = Inl e
      | ReshapeFrom3d a \<Rightarrow> reshapeFrom3d (self_data_reshaper w) a = Inl e)"

definition collaborator_errors_only ::
  "'v TransposeWrapper \<Rightarrow> (nat \<Rightarrow> 'v elem) \<Rightarrow> ('v, 'a) run \<Rightarrow> bool" where
  "collaborator_errors_only w g m =
     (case snd m of Inr a \<Rightarrow> True | Inl e \<Rightarrow> fst m \<noteq> [] \<and> raised_by w g (last (fst m)) e)"

definition first_call :: "'v event list \<Rightarrow> 'v event \<Rightarrow> bool" where
  "first_call tr ev = (case tr of [] \<Rightarrow> False | ev' # rest \<Rightarrow> ev' = ev)"

definition single_component_run :: "int list \<Rightarrow> dtype \<Rightarrow> 'v event list \<Rightarrow> bool" where
  "single_component_run shp dt tr =
     (first_call tr (NumpyEmpty shp dt)
      \<and> list_all (\<lambda>c. c = None) (reshape_indices tr)
      \<and> length (transposes tr) \<le> 1)"

definition multi_component_run :: "int list \<Rightarrow> nat \<Rightarrow> dtype \<Rightarrow> 'v event list \<Rightarrow> bool" where
  "multi_component_run shp C dt tr =
     (first_call tr (NumpyEmpty (shp @ [int C]) dt)
      \<and> list_all (\<lambda>c. case c of None \<Rightarrow> False | Some ic \<Rightarrow> ic < C) (reshape_indices tr)
      \<and> length (transposes tr) \<le> C)"

text \<open>
  A run over \<open>C\<close> components that calls the transpose \<open>op\<close> once per component, in
  ascending order, each time on the reshaper's view of that component of the input and
  on the view of that component of the buffer, and whose result holds, in component
  \<open>c\<close>, what the call for component \<open>c\<close> wrote.
\<close>

definition per_component_run ::
  "t3d_transpose \<Rightarrow> 'v transpose_op \<Rightarrow> DataReshaper \<Rightarrow> 'v ndarray \<Rightarrow> 'v ndarray \<Rightarrow> nat
     \<Rightarrow> 'v event list \<Rightarrow> 'v ndarray \<Rightarrow> bool" where
  "per_component_run op fn r buf data C tr B \<longleftrightarrow>
     map fst (transposes tr) = replicate C op
     \<and> map (\<lambda>p. Inr (snd p)) (transposes tr) = map (\<lambda>c. reshapeTo3d r data (Some c)) [0 ..< C]
     \<and> (\<forall>c < C. \<exists>a new. reshapeTo3d r data (Some c) = Inr a
            \<and> fn a (component_view buf c) = Inr new
            \<and> elems (component_view B c) = write_elems (elems (component_view buf c)) new)"

text \<open>
  The assumption of the round trip on the grid partition: on a real block of the natural
  shape, the transpose \<open>fwd\<close> fills a buffer of the pencil shape with real values, and
  the transpose \<open>bwd\<close>, given that pencil block, returns the elements it started from.
  A natural-layout array has as many elements as its shape says, \<open>dimension\<close> axes or
  one more for the components, and leading axes that, padded to three, are the natural
  block of the partition.
\<close>

definition transpose_inverse ::
  "('v::zero) transpose_op \<Rightarrow> 'v transpose_op \<Rightarrow> nat list \<Rightarrow> nat list \<Rightarrow> bool" where
  "transpose_inverse fwd bwd s3 sp \<longleftrightarrow>
     (\<forall>a out out'.
        shape a = s3 \<and> length (elems a) = prod_list s3 \<and> list_all isreal (elems a)
        \<and> shape out = sp \<and> length (elems out) = prod_list sp \<and> dtype out = dtype a
        \<and> shape out' = s3 \<and> length (elems out') = prod_list s3 \<and> dtype out' = dtype a
        \<longrightarrow> (\<exists>new. fwd a out = Inr new \<and> length new = prod_list sp \<and> list_all isreal new
                 \<and> bwd \<lparr>shape = sp, dtype = dtype a, elems = new\<rparr> out' = Inr (elems a)))"

definition natural_layout :: "'v TransposeWrapper \<Rightarrow> 'v ndarray \<Rightarrow> bool" where
  "natural_layout w A \<longleftrightarrow>
     length (elems A) = prod_list (shape A)
     \<and> (int (ndim A) = self_dim w \<or> int (ndim A) = self_dim w + 1)
     \<and> take (nat (self_dim w)) (shape A) @ replicate (3 - nat (self_dim w)) 1
           = block_shape (self_3d_size w)"

section \<open>A one-process grid partition, for concrete runs\<close>

text \<open>
  A partition of a 2 x 3 x 1 grid on one process. Its transposes reverse the element
  order of the block, so that each one undoes the other and none is the identity.
\<close>

definition ex_rev :: "int transpose_op" where
  "ex_rev a out = Inr (rev (elems a))"

definition ex_gp :: "int t3d" where
  "ex_gp = \<lparr>get_sz3d = [2, 3, 1], get_st3d = [1, 1, 1], get_en3d = [2, 3, 1],
            get_szx = [2, 3, 1], get_stx = [1, 1, 1], get_enx = [2, 3, 1],
            get_szy = [3, 2, 1], get_sty = [1, 1, 1], get_eny = [3, 2, 1],
            get_szz = [2, 3, 1], get_stz = [1, 1, 1], get_enz = [2, 3, 1],
            transpose_3d_to_x = ex_rev, transpose_3d_to_y = ex_rev, transpose_3d_to_z = ex_rev,
            transpose_x_to_3d = ex_rev, transpose_y_to_3d = ex_rev, transpose_z_to_3d = ex_rev\<rparr>"

text \<open>The adapter that the constructor builds from it for direction 1 and dimension 3.\<close>

definition ex_w :: "int TransposeWrapper" where
  "ex_w = \<lparr>self_grid_partition = ex_gp, self_dim = 3, self_direction = 1,
           self_3d_size = [2, 3, 1], self_3d_lo = [0, 0, 0], self_3d_hi = [1, 2, 0],
           self_pencil_size = [3, 2, 1], self_pencil_lo = [0, 0, 0], self_pencil_hi = [2, 1, 0],
           self_data_reshaper = \<lparr>dr_dim = 3, dr_data_order = F_order\<rparr>\<rparr>"

text \<open>Memory that holds zeros, a natural block of that partition and its pencil block.\<close>

definition ex_g :: "nat \<Rightarrow> int elem" where
  "ex_g i = Elem 0 0"

definition ex_A :: "int ndarray" where
  "ex_A = \<lparr>shape = [2, 3, 1], dtype = Float64,
           elems = [Elem 1 0, Elem 2 0, Elem 3 0, Elem 4 0, Elem 5 0, Elem 6 0]\<rparr>"

definition ex_B :: "int ndarray" where
  "ex_B = \<lparr>shape = [3, 2, 1], dtype = Float64,
           elems = [Elem 6 0, Elem 5 0, Elem 4 0, Elem 3 0, Elem 2 0, Elem 1 0]\<rparr>"

text \<open>
  The natural block again with a complex element type and no imaginary part, and with
  a trailing component axis of extent 1.
\<close>

definition ex_C :: "int ndarray" where
  "ex_C = \<lparr>shape = [2, 3, 1], dtype = Complex128,
           elems = [Elem 1 0, Elem 2 0, Elem 3 0, Elem 4 0, Elem 5 0, Elem 6 0]\<rparr>"

definition ex_T :: "int ndarray" where
  "ex_T = \<lparr>shape = [2, 3, 1, 1], dtype = Float64,
           elems = [Elem 1 0, Elem 2 0, Elem 3 0, Elem 4 0, Elem 5 0, Elem 6 0]\<rparr>"

text \<open>A natural block with two components and its pencil block.\<close>

definition ex_A2 :: "int ndarray" where
  "ex_A2 = \<lparr>shape = [2, 3, 1, 2], dtype = Float64,
            elems = [Elem 1 0, Elem 2 0, Elem 3 0, Elem 4 0, Elem 5 0, Elem 6 0,
                     Elem 7 0, Elem 8 0, Elem 9 0, Elem 10 0, Elem 11 0, Elem 12 0]\<rparr>"

definition ex_B2 :: "int ndarray" where
  "ex_B2 = \<lparr>shape = [3, 2, 1, 2], dtype = Float64,
            elems = [Elem 6 0, Elem 5 0, Elem 4 0, Elem 3 0, Elem 2 0, Elem 1 0,
                     Elem 12 0, Elem 11 0, Elem 10 0, Elem 9 0, Elem 8 0, Elem 7 0]\<rparr>"


section \<open>Properties\<close>

subsection \<open>Runs, buffers and components\<close>



lemma and_then_Inr_iff:
  "and_then m f = (tr, Inr b) \<longleftrightarrow>
     (\<exists>tr1 a tr2. m = (tr1, Inr a) \<and> f a = (tr2, Inr b) \<and> tr = tr1 @ tr2)"
  by (cases m; cases "snd m") (auto simp: and_then_def split: prod.splits sum.splits)

lemma call_Inr_iff: "call ev r = (tr, Inr a) \<longleftrightarrow> tr = [ev] \<and> r = Inr a"
  by (auto simp: call_def)

lemma transpose_call_Inr_iff:
  "transpose_call op fn a out = (tr, Inr new) \<longleftrightarrow> tr = [T3dTranspose op a out] \<and> fn a out = Inr new"
  by (auto simp: transpose_call_def call_def)

lemma to_pencil_call_eq:
  "to_pencil_call w a out
     = transpose_call (to_pencil_op (self_direction w))
         (to_pencil_fn (self_grid_partition w) (self_direction w)) a out"
  by (simp add: to_pencil_call_def transpose_call_def to_pencil_op_def to_pencil_fn_def)

lemma from_pencil_call_eq:
  "from_pencil_call w a out
     = transpose_call (from_pencil_op (self_direction w))
         (from_pencil_fn (self_grid_partition w) (self_direction w)) a out"
  by (simp add: from_pencil_call_def transpose_call_def from_pencil_op_def from_pencil_fn_def)

lemma to_pencil_loop_eq:
  "to_pencil_loop w data ics buf
     = transpose_loop (to_pencil_op (self_direction w))
         (to_pencil_fn (self_grid_partition w) (self_direction w)) (self_data_reshaper w) data ics buf"
  by (induction ics arbitrary: buf) (simp_all add: to_pencil_call_eq)

lemma from_pencil_loop_eq:
  "from_pencil_loop w data ics buf
     = transpose_loop (from_pencil_op (self_direction w))
         (from_pencil_fn (self_grid_partition w) (self_direction w)) (self_data_reshaper w) data ics buf"
  by (induction ics arbitrary: buf) (simp_all add: from_pencil_call_eq)

lemma transposeToPencil_single_eq:
  "transposeToPencil_single w g data
     = transpose_single (to_pencil_op (self_direction w))
         (to_pencil_fn (self_grid_partition w) (self_direction w)) (self_data_reshaper w)
         (self_pencil_size w) g data"
  by (simp add: transposeToPencil_single_def transpose_single_def to_pencil_call_eq)

lemma transposeToPencil_multi_eq:
  "transposeToPencil_multi w g data C
     = transpose_multi (to_pencil_op (self_direction w))
         (to_pencil_fn (self_grid_partition w) (self_direction w)) (self_data_reshaper w)
         (self_pencil_size w) g data C"
  by (simp add: transposeToPencil_multi_def transpose_multi_def to_pencil_loop_eq)

lemma transposeFromPencil_single_eq:
  "transposeFromPencil_single w g data
     = transpose_single (from_pencil_op (self_direction w))
         (from_pencil_fn (self_grid_partition w) (self_direction w)) (self_data_reshaper w)
         (self_3d_size w) g data"
  by (simp add: transposeFromPencil_single_def transpose_single_def from_pencil_call_eq)

lemma transposeFromPencil_multi_eq:
  "transposeFromPencil_multi w g data C
     = transpose_multi (from_pencil_op (self_direction w))
         (from_pencil_fn (self_grid_partition w) (self_direction w)) (self_data_reshaper w)
         (self_3d_size w) g data C"
  by (simp add: transposeFromPencil_multi_def transpose_multi_def from_pencil_loop_eq)

lemma write_elems_length [simp]: "length (write_elems old new) = length old"
  by (simp add: write_elems_def)

lemma write_elems_same_length: "length new = length old \<Longrightarrow> write_elems old new = new"
  by (simp add: write_elems_def)

lemma chunk_length: "c * n + n \<le> length xs \<Longrightarrow> length (chunk n c xs) = n"
  by (simp add: chunk_def)

lemma splice_chunk_same:
  assumes "c * n + n \<le> length xs" "length w = n"
  shows "chunk n c (take (c * n) xs @ w @ drop (c * n + n) xs) = w"
  using assms by (simp add: chunk_def)

lemma splice_chunk_other:
  assumes "c * n + n \<le> length xs" "length w = n" "j \<noteq> c"
  shows "chunk n j (take (c * n) xs @ w @ drop (c * n + n) xs) = chunk n j xs"
proof (cases "j < c")
  case True
  then have "Suc j * n \<le> c * n" by (intro mult_le_mono1) simp
  then have le: "j * n + n \<le> c * n" by simp
  with assms(1) have "take n (drop (j * n) (take (c * n) xs @ w @ drop (c * n + n) xs))
      = take n (drop (j * n) (take (c * n) xs))"
    by simp
  also have "\<dots> = take n (drop (j * n) xs)"
    using le by (simp add: drop_take min_def)
  finally show ?thesis by (simp add: chunk_def)
next
  case False
  with assms(3) have "c < j" by simp
  then have "Suc c * n \<le> j * n" by (intro mult_le_mono1) simp
  then have le: "c * n + n \<le> j * n" by simp
  then obtain k where k: "j * n = c * n + n + k" by (metis le_Suc_ex)
  have "drop (j * n) (take (c * n) xs @ w @ drop (c * n + n) xs) = drop (j * n) xs"
    using assms(1,2) unfolding k by (simp add: add.commute)
  then show ?thesis by (simp add: chunk_def)
qed

lemma chunks_eq:
  assumes "length xs = n * C" "length ys = n * C" "\<forall>c < C. chunk n c xs = chunk n c ys"
  shows "xs = ys"
  using assms
proof (induction C arbitrary: xs ys)
  case 0
  then show ?case by simp
next
  case (Suc C)
  have h: "take n xs = take n ys" using Suc.prems(3) [rule_format, of 0] by (simp add: chunk_def)
  have "drop n xs = drop n ys"
  proof (rule Suc.IH)
    show "length (drop n xs) = n * C" using Suc.prems(1) by simp
    show "length (drop n ys) = n * C" using Suc.prems(2) by simp
    show "\<forall>c<C. chunk n c (drop n xs) = chunk n c (drop n ys)"
    proof (intro allI impI)
      fix c assume "c < C"
      then have "chunk n (Suc c) xs = chunk n (Suc c) ys" using Suc.prems(3) by simp
      then show "chunk n c (drop n xs) = chunk n c (drop n ys)"
        by (simp add: chunk_def add.commute)
    qed
  qed
  with h show ?case by (metis append_take_drop_id)
qed

lemma chunk_in_range: "c < C \<Longrightarrow> length xs = n * C \<Longrightarrow> c * n + n \<le> length xs"
proof -
  assume "c < C" "length xs = n * C"
  then have "Suc c * n \<le> C * n" by (intro mult_le_mono1) simp
  then show ?thesis using \<open>length xs = n * C\<close> by (simp add: mult.commute)
qed

lemma set_chunk_subset: "set (chunk n c xs) \<subseteq> set xs"
  unfolding chunk_def by (meson set_take_subset set_drop_subset subset_trans)

lemma chunks_all:
  assumes "length xs = n * C" "\<forall>c < C. \<forall>x \<in> set (chunk n c xs). P x"
  shows "\<forall>x \<in> set xs. P x"
  using assms
proof (induction C arbitrary: xs)
  case 0
  then show ?case by simp
next
  case (Suc C)
  have h: "\<forall>x \<in> set (take n xs). P x"
    using Suc.prems(2) [rule_format, of 0] by (simp add: chunk_def)
  have "\<forall>x \<in> set (drop n xs). P x"
  proof (rule Suc.IH)
    show "length (drop n xs) = n * C" using Suc.prems(1) by simp
    show "\<forall>c<C. \<forall>x\<in>set (chunk n c (drop n xs)). P x"
    proof (intro allI impI)
      fix c assume "c < C"
      then have "Suc c < Suc C" by simp
      then have "\<forall>x\<in>set (chunk n (Suc c) xs). P x" using Suc.prems(2) by blast
      then show "\<forall>x\<in>set (chunk n c (drop n xs)). P x"
        by (simp add: chunk_def add.commute)
    qed
  qed
  with h show ?case by (metis append_take_drop_id set_append Un_iff)
qed

text \<open>Views and writes of components.\<close>

lemma component_view_chunk:
  "component_view buf ic
     = \<lparr>shape = butlast (shape buf), dtype = dtype buf,
        elems = chunk (prod_list (butlast (shape buf))) ic (elems buf)\<rparr>"
  by (simp add: component_view_def chunk_def Let_def)

lemma write_component_shape [simp]:
  "shape (write_component buf ic new) = shape buf"
  "dtype (write_component buf ic new) = dtype buf"
  by (simp_all add: write_component_def Let_def)

lemma write_component_length:
  assumes "ic * prod_list (butlast (shape buf)) + prod_list (butlast (shape buf)) \<le> length (elems buf)"
  shows "length (elems (write_component buf ic new)) = length (elems buf)"
  using assms by (simp add: write_component_def Let_def)

lemma write_component_chunk_same:
  assumes "ic * prod_list (butlast (shape buf)) + prod_list (butlast (shape buf)) \<le> length (elems buf)"
  shows "chunk (prod_list (butlast (shape buf))) ic (elems (write_component buf ic new))
           = write_elems (chunk (prod_list (butlast (shape buf))) ic (elems buf)) new"
proof -
  let ?n = "prod_list (butlast (shape buf))"
  have "length (write_elems (take ?n (drop (ic * ?n) (elems buf))) new) = ?n"
    using assms by simp
  from splice_chunk_same [OF assms this]
  show ?thesis by (simp add: write_component_def Let_def chunk_def)
qed

lemma write_component_chunk_other:
  assumes "ic * prod_list (butlast (shape buf)) + prod_list (butlast (shape buf)) \<le> length (elems buf)"
    and "jc \<noteq> ic"
  shows "chunk (prod_list (butlast (shape buf))) jc (elems (write_component buf ic new))
           = chunk (prod_list (butlast (shape buf))) jc (elems buf)"
proof -
  let ?n = "prod_list (butlast (shape buf))"
  have "length (write_elems (take ?n (drop (ic * ?n) (elems buf))) new) = ?n"
    using assms by simp
  from splice_chunk_other [OF assms(1) this assms(2)]
  show ?thesis by (simp add: write_component_def Let_def)
qed

lemma component_view_write_other:
  assumes "ic * prod_list (butlast (shape buf)) + prod_list (butlast (shape buf)) \<le> length (elems buf)"
    and "jc \<noteq> ic"
  shows "component_view (write_component buf ic new) jc = component_view buf jc"
  using write_component_chunk_other [OF assms]
  by (simp add: component_view_chunk)

lemma transposes_append [simp]: "transposes (tr1 @ tr2) = transposes tr1 @ transposes tr2"
  by (induction tr1 rule: transposes.induct) simp_all

lemma transpose_loop_success:
  assumes "transpose_loop op fn r data ics buf = (tr, Inr buf')"
    and "distinct ics"
    and "\<forall>ic \<in> set ics. ic * prod_list (butlast (shape buf)) + prod_list (butlast (shape buf))
           \<le> length (elems buf)"
  shows "shape buf' = shape buf \<and> dtype buf' = dtype buf
       \<and> length (elems buf') = length (elems buf)
       \<and> (\<forall>ic \<in> set ics. \<exists>a new. reshapeTo3d r data (Some ic) = Inr a
              \<and> fn a (component_view buf ic) = Inr new
              \<and> chunk (prod_list (butlast (shape buf))) ic (elems buf')
                  = write_elems (chunk (prod_list (butlast (shape buf))) ic (elems buf)) new)
       \<and> (\<forall>jc. jc \<notin> set ics \<longrightarrow>
              chunk (prod_list (butlast (shape buf))) jc (elems buf')
                = chunk (prod_list (butlast (shape buf))) jc (elems buf))
       \<and> map fst (transposes tr) = replicate (length ics) op
       \<and> map (\<lambda>p. Inr (snd p)) (transposes tr) = map (\<lambda>ic. reshapeTo3d r data (Some ic)) ics"
  using assms
proof (induction ics arbitrary: buf tr)
  case Nil
  then show ?case by simp
next
  case (Cons ic ics)
  let ?n = "prod_list (butlast (shape buf))"
  from Cons.prems(1) obtain a new tr2 where
    a: "reshapeTo3d r data (Some ic) = Inr a"
    and new: "fn a (component_view buf ic) = Inr new"
    and rest: "transpose_loop op fn r data ics (write_component buf ic new) = (tr2, Inr buf')"
    and tr: "tr = [ReshapeTo3d data (Some ic), T3dTranspose op a (component_view buf ic)] @ tr2"
    by (auto simp: and_then_Inr_iff call_Inr_iff transpose_call_Inr_iff)
  let ?buf1 = "write_component buf ic new"
  have range_ic: "ic * ?n + ?n \<le> length (elems buf)" using Cons.prems(3) by simp
  have len1: "length (elems ?buf1) = length (elems buf)"
    by (rule write_component_length [OF range_ic])
  have d: "distinct ics" and notin: "ic \<notin> set ics" using Cons.prems(2) by simp_all
  have range1: "\<forall>jc \<in> set ics. jc * prod_list (butlast (shape ?buf1)) + prod_list (butlast (shape ?buf1))
           \<le> length (elems ?buf1)"
    using Cons.prems(3) len1 by simp
  note IH = Cons.IH [OF rest d range1, simplified write_component_shape len1]
  have other: "\<And>jc. jc \<noteq> ic \<Longrightarrow> chunk ?n jc (elems ?buf1) = chunk ?n jc (elems buf)"
    by (rule write_component_chunk_other [OF range_ic])
  have view: "\<And>jc. jc \<noteq> ic \<Longrightarrow> component_view ?buf1 jc = component_view buf jc"
    by (rule component_view_write_other [OF range_ic])
  have same: "chunk ?n ic (elems ?buf1) = write_elems (chunk ?n ic (elems buf)) new"
    by (rule write_component_chunk_same [OF range_ic])
  have c1: "shape buf' = shape buf \<and> dtype buf' = dtype buf \<and> length (elems buf') = length (elems buf)"
    using IH by simp
  have c2: "\<exists>a new. reshapeTo3d r data (Some jc) = Inr a
              \<and> fn a (component_view buf jc) = Inr new
              \<and> chunk ?n jc (elems buf') = write_elems (chunk ?n jc (elems buf)) new"
    if "jc \<in> set (ic # ics)" for jc
  proof (cases "jc = ic")
    case True
    have "chunk ?n ic (elems buf') = chunk ?n ic (elems ?buf1)" using IH notin by blast
    with a new same True show ?thesis by simp
  next
    case False
    with that have "jc \<in> set ics" by simp
    with IH obtain a' new' where "reshapeTo3d r data (Some jc) = Inr a'"
      "fn a' (component_view ?buf1 jc) = Inr new'"
      "chunk ?n jc (elems buf') = write_elems (chunk ?n jc (elems ?buf1)) new'"
      by blast
    with False show ?thesis by (simp add: view other)
  qed
  have c3: "chunk ?n jc (elems buf') = chunk ?n jc (elems buf)" if "jc \<notin> set (ic # ics)" for jc
  proof -
    from that have "jc \<noteq> ic" "jc \<notin> set ics" by simp_all
    then show ?thesis using IH other by metis
  qed
  have c4: "map fst (transposes tr) = replicate (length (ic # ics)) op"
    "map (\<lambda>p. Inr (snd p)) (transposes tr) = map (\<lambda>ic. reshapeTo3d r data (Some ic)) (ic # ics)"
    using IH a by (simp_all add: tr)
  show ?case using c1 c2 c3 c4 by blast
qed

lemma transpose_loop_runs:
  assumes "distinct ics"
    and "\<forall>ic \<in> set ics. ic * prod_list (butlast (shape buf)) + prod_list (butlast (shape buf))
           \<le> length (elems buf)"
    and "\<forall>ic \<in> set ics. \<exists>a new. reshapeTo3d r data (Some ic) = Inr a
              \<and> fn a (component_view buf ic) = Inr new"
  shows "\<exists>tr buf'. transpose_loop op fn r data ics buf = (tr, Inr buf')"
  using assms
proof (induction ics arbitrary: buf)
  case Nil
  then show ?case by simp
next
  case (Cons ic ics)
  let ?n = "prod_list (butlast (shape buf))"
  from Cons.prems(3) obtain a new where
    a: "reshapeTo3d r data (Some ic) = Inr a"
    and new: "fn a (component_view buf ic) = Inr new"
    by auto
  let ?buf1 = "write_component buf ic new"
  have range_ic: "ic * ?n + ?n \<le> length (elems buf)" using Cons.prems(2) by simp
  have len1: "length (elems ?buf1) = length (elems buf)"
    by (rule write_component_length [OF range_ic])
  have d: "distinct ics" and notin: "ic \<notin> set ics" using Cons.prems(1) by simp_all
  have range1: "\<forall>jc \<in> set ics. jc * prod_list (butlast (shape ?buf1)) + prod_list (butlast (shape ?buf1))
           \<le> length (elems ?buf1)"
    using Cons.prems(2) len1 by simp
  have view: "\<And>jc. jc \<noteq> ic \<Longrightarrow> component_view ?buf1 jc = component_view buf jc"
    by (rule component_view_write_other [OF range_ic])
  have calls1: "\<forall>jc \<in> set ics. \<exists>a new. reshapeTo3d r data (Some jc) = Inr a
              \<and> fn a (component_view ?buf1 jc) = Inr new"
  proof
    fix jc assume jc: "jc \<in> set ics"
    with notin have "jc \<noteq> ic" by auto
    with Cons.prems(3) jc show "\<exists>a new. reshapeTo3d r data (Some jc) = Inr a
              \<and> fn a (component_view ?buf1 jc) = Inr new"
      by (simp add: view)
  qed
  from Cons.IH [OF d range1 calls1] obtain tr2 buf' where
    "transpose_loop op fn r data ics ?buf1 = (tr2, Inr buf')" by blast
  then show ?case
    using a new by (simp add: and_then_def call_def transpose_call_def)
qed

lemma numpy_empty_iff:
  "numpy_empty g shp dt = Inr buf \<longleftrightarrow> (\<forall>n \<in> set shp. 0 \<le> n) \<and> buf = fresh g (map nat shp) dt"
  by (auto simp: numpy_empty_def fresh_def list_ex_iff not_less [symmetric])

lemma numpy_empty_sizes_iff:
  "numpy_empty g (map sint sizes) dt = Inr buf
     \<longleftrightarrow> (\<forall>n \<in> set sizes. 0 \<le> sint n) \<and> buf = fresh g (block_shape sizes) dt"
  by (auto simp: numpy_empty_iff block_shape_def o_def)

lemma numpy_empty_sizes_comp_iff:
  "numpy_empty g (map sint sizes @ [int C]) dt = Inr buf
     \<longleftrightarrow> (\<forall>n \<in> set sizes. 0 \<le> sint n) \<and> buf = fresh g (block_shape sizes @ [C]) dt"
  by (auto simp: numpy_empty_iff block_shape_def o_def)

lemma fresh_simps [simp]:
  "shape (fresh g shp dt) = shp" "dtype (fresh g shp dt) = dt"
  "length (elems (fresh g shp dt)) = prod_list shp"
  by (simp_all add: fresh_def)

lemma transpose_single_Inr_iff:
  "transpose_single op fn r sizes g data = (tr, Inr B) \<longleftrightarrow>
     (\<exists>a new. (\<forall>n \<in> set sizes. 0 \<le> sint n)
        \<and> reshapeTo3d r data None = Inr a
        \<and> fn a (fresh g (block_shape sizes) (dtype data)) = Inr new
        \<and> reshapeFrom3d r ((fresh g (block_shape sizes) (dtype data))
              \<lparr>elems := write_elems (elems (fresh g (block_shape sizes) (dtype data))) new\<rparr>) = Inr B
        \<and> tr = [NumpyEmpty (map sint sizes) (dtype data), ReshapeTo3d data None,
                 T3dTranspose op a (fresh g (block_shape sizes) (dtype data)),
                 ReshapeFrom3d ((fresh g (block_shape sizes) (dtype data))
              \<lparr>elems := write_elems (elems (fresh g (block_shape sizes) (dtype data))) new\<rparr>)])"
  unfolding transpose_single_def Let_def
  by (auto simp: and_then_Inr_iff call_Inr_iff transpose_call_Inr_iff numpy_empty_sizes_iff)

lemma transpose_multi_Inr_iff:
  "transpose_multi op fn r sizes g data C = (tr, Inr B) \<longleftrightarrow>
     (\<exists>tr1 filled. (\<forall>n \<in> set sizes. 0 \<le> sint n)
        \<and> transpose_loop op fn r data [0 ..< C] (fresh g (block_shape sizes @ [C]) (dtype data))
            = (tr1, Inr filled)
        \<and> reshapeFrom3d r filled = Inr B
        \<and> tr = NumpyEmpty (map sint sizes @ [int C]) (dtype data) # tr1 @ [ReshapeFrom3d filled])"
  unfolding transpose_multi_def Let_def
  by (auto simp: and_then_Inr_iff call_Inr_iff numpy_empty_sizes_comp_iff)

lemma reshapeTo3d_None_iff:
  "reshapeTo3d r data None = Inr a \<longleftrightarrow>
     int (ndim data) = dr_dim r \<and> ndim data \<le> 3
     \<and> a = data\<lparr>shape := shape data @ replicate (3 - ndim data) 1\<rparr>"
  by (auto simp: reshapeTo3d_def)

lemma reshapeTo3d_Some_iff:
  "reshapeTo3d r data (Some c) = Inr a \<longleftrightarrow>
     int (ndim data) = dr_dim r + 1 \<and> ndim data \<le> 4 \<and> c < last (shape data)
     \<and> a = \<lparr>shape = butlast (shape data) @ replicate (4 - ndim data) 1, dtype = dtype data,
             elems = chunk (prod_list (butlast (shape data))) c (elems data)\<rparr>"
  by (auto simp: reshapeTo3d_def component_view_chunk)

lemma reshapeFrom3d_3_iff:
  assumes "ndim buf = 3"
  shows "reshapeFrom3d r buf = Inr B \<longleftrightarrow>
     drop (nat (dr_dim r)) (shape buf) = replicate (3 - nat (dr_dim r)) 1
     \<and> B = buf\<lparr>shape := take (nat (dr_dim r)) (shape buf)\<rparr>"
  using assms by (auto simp: reshapeFrom3d_def Let_def)

lemma reshapeFrom3d_4_iff:
  assumes "ndim buf = 4"
  shows "reshapeFrom3d r buf = Inr B \<longleftrightarrow>
     drop (nat (dr_dim r)) (butlast (shape buf)) = replicate (3 - nat (dr_dim r)) 1
     \<and> B = buf\<lparr>shape := take (nat (dr_dim r)) (shape buf) @ [last (shape buf)]\<rparr>"
  using assms by (auto simp: reshapeFrom3d_def Let_def)

lemma block_shape_length [simp]: "length (block_shape sizes) = length sizes"
  by (simp add: block_shape_def)

lemma transpose_single_success:
  assumes run: "transpose_single op fn r sizes g data = (tr, Inr B)"
    and len: "length sizes = 3"
  shows "\<forall>n \<in> set sizes. 0 \<le> sint n"
    and "int (ndim data) = dr_dim r"
    and "drop (nat (dr_dim r)) (block_shape sizes) = replicate (3 - nat (dr_dim r)) 1"
    and "\<exists>new. fn (data\<lparr>shape := shape data @ replicate (3 - ndim data) 1\<rparr>)
                  (fresh g (block_shape sizes) (dtype data)) = Inr new
              \<and> B = \<lparr>shape = take (nat (dr_dim r)) (block_shape sizes), dtype = dtype data,
                     elems = write_elems (elems (fresh g (block_shape sizes) (dtype data))) new\<rparr>"
    and "transposes tr = [(op, data\<lparr>shape := shape data @ replicate (3 - ndim data) 1\<rparr>)]"
proof -
  let ?buf = "fresh g (block_shape sizes) (dtype data)"
  from run obtain a new where
    nn: "\<forall>n \<in> set sizes. 0 \<le> sint n"
    and a: "reshapeTo3d r data None = Inr a"
    and new: "fn a ?buf = Inr new"
    and B: "reshapeFrom3d r (?buf\<lparr>elems := write_elems (elems ?buf) new\<rparr>) = Inr B"
    and tr: "tr = [NumpyEmpty (map sint sizes) (dtype data), ReshapeTo3d data None,
                 T3dTranspose op a ?buf,
                 ReshapeFrom3d (?buf\<lparr>elems := write_elems (elems ?buf) new\<rparr>)]"
    unfolding transpose_single_Inr_iff by blast
  have nd: "ndim (?buf\<lparr>elems := write_elems (elems ?buf) new\<rparr>) = 3"
    using len by (simp add: ndim_def)
  from a have a': "int (ndim data) = dr_dim r"
    "a = data\<lparr>shape := shape data @ replicate (3 - ndim data) 1\<rparr>"
    by (simp_all add: reshapeTo3d_None_iff)
  from B have pad: "drop (nat (dr_dim r)) (block_shape sizes) = replicate (3 - nat (dr_dim r)) 1"
    and Beq: "B = \<lparr>shape = take (nat (dr_dim r)) (block_shape sizes), dtype = dtype data,
                     elems = write_elems (elems ?buf) new\<rparr>"
    unfolding reshapeFrom3d_3_iff [OF nd] by (simp_all add: fresh_def)
  show "\<forall>n \<in> set sizes. 0 \<le> sint n" by (rule nn)
  show "int (ndim data) = dr_dim r" by (rule a'(1))
  show "drop (nat (dr_dim r)) (block_shape sizes) = replicate (3 - nat (dr_dim r)) 1" by (rule pad)
  show "\<exists>new. fn (data\<lparr>shape := shape data @ replicate (3 - ndim data) 1\<rparr>) ?buf = Inr new
              \<and> B = \<lparr>shape = take (nat (dr_dim r)) (block_shape sizes), dtype = dtype data,
                     elems = write_elems (elems ?buf) new\<rparr>"
    using new Beq unfolding a'(2) by blast
  show "transposes tr = [(op, data\<lparr>shape := shape data @ replicate (3 - ndim data) 1\<rparr>)]"
    unfolding tr a'(2) by simp
qed

lemma prod_list_snoc: "prod_list (xs @ [c]) = prod_list xs * (c::nat)"
  by simp

lemma transpose_multi_success:
  assumes run: "transpose_multi op fn r sizes g data C = (tr, Inr B)"
    and len: "length sizes = 3" and dle: "nat (dr_dim r) \<le> 3"
  shows "\<forall>n \<in> set sizes. 0 \<le> sint n"
    and "drop (nat (dr_dim r)) (block_shape sizes) = replicate (3 - nat (dr_dim r)) 1"
    and "shape B = take (nat (dr_dim r)) (block_shape sizes) @ [C]"
    and "dtype B = dtype data"
    and "length (elems B) = prod_list (block_shape sizes) * C"
    and "\<forall>c < C. \<exists>a new. reshapeTo3d r data (Some c) = Inr a
              \<and> fn a (component_view (fresh g (block_shape sizes @ [C]) (dtype data)) c) = Inr new
              \<and> chunk (prod_list (block_shape sizes)) c (elems B)
                  = write_elems (elems (component_view (fresh g (block_shape sizes @ [C]) (dtype data)) c)) new"
    and "map fst (transposes tr) = replicate C op"
    and "map (\<lambda>p. Inr (snd p)) (transposes tr) = map (\<lambda>c. reshapeTo3d r data (Some c)) [0 ..< C]"
proof -
  let ?P = "block_shape sizes"
  let ?buf = "fresh g (?P @ [C]) (dtype data)"
  from run obtain tr1 filled where
    nn: "\<forall>n \<in> set sizes. 0 \<le> sint n"
    and loop: "transpose_loop op fn r data [0 ..< C] ?buf = (tr1, Inr filled)"
    and B: "reshapeFrom3d r filled = Inr B"
    and tr: "tr = NumpyEmpty (map sint sizes @ [int C]) (dtype data) # tr1 @ [ReshapeFrom3d filled]"
    unfolding transpose_multi_Inr_iff by blast
  have bl: "butlast (shape ?buf) = ?P" by simp
  have range: "\<forall>ic \<in> set [0 ..< C]. ic * prod_list (butlast (shape ?buf)) + prod_list (butlast (shape ?buf))
           \<le> length (elems ?buf)"
  proof
    fix ic assume "ic \<in> set [0 ..< C]"
    then have "Suc ic \<le> C" by simp
    then have "Suc ic * prod_list ?P \<le> C * prod_list ?P" by (rule mult_le_mono1)
    then show "ic * prod_list (butlast (shape ?buf)) + prod_list (butlast (shape ?buf))
           \<le> length (elems ?buf)"
      by (simp add: mult.commute)
  qed
  have dist: "distinct [0 ..< C]" by simp
  note L = transpose_loop_success [OF loop dist range, unfolded bl]
  have nd: "ndim filled = 4" using L len by (simp add: ndim_def)
  from B have pad: "drop (nat (dr_dim r)) (butlast (shape filled)) = replicate (3 - nat (dr_dim r)) 1"
    and Beq: "B = filled\<lparr>shape := take (nat (dr_dim r)) (shape filled) @ [last (shape filled)]\<rparr>"
    unfolding reshapeFrom3d_4_iff [OF nd] by simp_all
  have sf: "shape filled = ?P @ [C]" using L by simp
  show "\<forall>n \<in> set sizes. 0 \<le> sint n" by (rule nn)
  show c1: "drop (nat (dr_dim r)) ?P = replicate (3 - nat (dr_dim r)) 1" using pad sf by simp
  show c2: "shape B = take (nat (dr_dim r)) ?P @ [C]" using Beq sf dle len by simp
  show c3: "dtype B = dtype data" using Beq L by simp
  show c4: "length (elems B) = prod_list ?P * C" using Beq L by simp
  have eB: "elems B = elems filled" using Beq by simp
  show c5: "\<forall>c < C. \<exists>a new. reshapeTo3d r data (Some c) = Inr a
              \<and> fn a (component_view ?buf c) = Inr new
              \<and> chunk (prod_list ?P) c (elems B)
                  = write_elems (elems (component_view ?buf c)) new"
    using L unfolding eB by (simp add: component_view_chunk)
  show "map fst (transposes tr) = replicate C op"
    "map (\<lambda>p. Inr (snd p)) (transposes tr) = map (\<lambda>c. reshapeTo3d r data (Some c)) [0 ..< C]"
    using L by (simp_all add: tr)
qed

lemma transposeToPencil_eq:
  "transposeToPencil w g data =
     (if \<not> all_isreal data
      then ([], Inl (ValueError ''The given data is complex! Only real data can be transposed.''))
      else if num_components (self_dim w) data = 1
      then transpose_single (to_pencil_op (self_direction w))
             (to_pencil_fn (self_grid_partition w) (self_direction w)) (self_data_reshaper w)
             (self_pencil_size w) g data
      else transpose_multi (to_pencil_op (self_direction w))
             (to_pencil_fn (self_grid_partition w) (self_direction w)) (self_data_reshaper w)
             (self_pencil_size w) g data (num_components (self_dim w) data))"
  by (simp add: transposeToPencil_def Let_def num_components_def
      transposeToPencil_single_eq transposeToPencil_multi_eq)

lemma transposeFromPencil_eq:
  "transposeFromPencil w g data =
     (if \<not> all_isreal data
      then ([], Inl (ValueError ''The given data is complex! Only real data can be transposed.''))
      else if num_components (self_dim w) data = 1
      then transpose_single (from_pencil_op (self_direction w))
             (from_pencil_fn (self_grid_partition w) (self_direction w)) (self_data_reshaper w)
             (self_3d_size w) g data
      else transpose_multi (from_pencil_op (self_direction w))
             (from_pencil_fn (self_grid_partition w) (self_direction w)) (self_data_reshaper w)
             (self_3d_size w) g data (num_components (self_dim w) data))"
  by (simp add: transposeFromPencil_def Let_def num_components_def
      transposeFromPencil_single_eq transposeFromPencil_multi_eq)

lemma init_facts:
  assumes "TransposeWrapper_init grid_partition direction dimension = (tr, Inr w)"
  shows "self_dim w = dimension" "self_direction w = direction"
    "dimension = 2 \<or> dimension = 3" "0 \<le> direction" "direction < dimension"
    "length (self_pencil_size w) = 3" "length (self_3d_size w) = 3"
    "dr_dim (self_data_reshaper w) = dimension"
    "grid_partition = T3d (self_grid_partition w)"
  using assms
  by (cases grid_partition; auto simp: TransposeWrapper_init_def fill3_def split: if_splits)+

lemma map_int_block_shape:
  assumes "\<forall>n \<in> set sizes. 0 \<le> sint n"
  shows "map int (take d (block_shape sizes)) = map sint (take d sizes)"
proof -
  have "map int (block_shape sizes) = map sint sizes"
    using assms by (simp add: block_shape_def)
  then have "take d (map int (block_shape sizes)) = take d (map sint sizes)" by simp
  then show ?thesis by (simp only: take_map)
qed

lemma take_take_snoc:
  assumes "d \<le> length xs"
  shows "take d (take d xs @ ys) = take d xs"
  using assms by simp

lemma transpose_run_shape:
  assumes len: "length sizes = 3" and dle: "nat (dr_dim r) \<le> 3"
    and run: "(if C = 1 then transpose_single op fn r sizes g data
               else transpose_multi op fn r sizes g data C) = (tr, Inr B)"
  shows "map int (take (nat (dr_dim r)) (shape B)) = map sint (take (nat (dr_dim r)) sizes)"
proof (cases "C = 1")
  case True
  with run have "transpose_single op fn r sizes g data = (tr, Inr B)" by simp
  note S = transpose_single_success [OF this len]
  from S(4) obtain new where
    "B = \<lparr>shape = take (nat (dr_dim r)) (block_shape sizes), dtype = dtype data,
           elems = write_elems (elems (fresh g (block_shape sizes) (dtype data))) new\<rparr>"
    by blast
  then have "shape B = take (nat (dr_dim r)) (block_shape sizes)" by simp
  then show ?thesis using map_int_block_shape [OF S(1)] by simp
next
  case False
  with run have "transpose_multi op fn r sizes g data C = (tr, Inr B)" by simp
  note M = transpose_multi_success [OF this len dle]
  have "nat (dr_dim r) \<le> length (block_shape sizes)" using len dle by simp
  then have "take (nat (dr_dim r)) (shape B) = take (nat (dr_dim r)) (block_shape sizes)"
    unfolding M(3) by (rule take_take_snoc)
  then show ?thesis using map_int_block_shape [OF M(1)] by simp
qed

subsection \<open>Where exceptions come from, and what a run calls\<close>

lemma t3d_method_to [simp]: "t3d_method gp (to_pencil_op d) = to_pencil_fn gp d"
  by (simp add: t3d_method_def to_pencil_op_def to_pencil_fn_def)

lemma t3d_method_from [simp]: "t3d_method gp (from_pencil_op d) = from_pencil_fn gp d"
  by (simp add: t3d_method_def from_pencil_op_def from_pencil_fn_def)

lemma ceo_Inr [simp]: "collaborator_errors_only w g (tr, Inr a)"
  by (simp add: collaborator_errors_only_def)

lemma ceo_and_then:
  assumes "collaborator_errors_only w g m"
    and "\<And>a. snd m = Inr a \<Longrightarrow> collaborator_errors_only w g (f a)"
  shows "collaborator_errors_only w g (and_then m f)"
proof (cases m)
  case (Pair tr r)
  show ?thesis
  proof (cases r)
    case (Inl e)
    with Pair assms(1) show ?thesis by (simp add: and_then_def collaborator_errors_only_def)
  next
    case (Inr a)
    with Pair assms(2) [of a] show ?thesis
      by (cases "f a"; cases "snd (f a)")
         (auto simp: and_then_def collaborator_errors_only_def)
  qed
qed

lemma ceo_call:
  assumes "\<And>e. r = Inl e \<Longrightarrow> raised_by w g ev e"
  shows "collaborator_errors_only w g (call ev r)"
  using assms by (cases r) (simp_all add: call_def collaborator_errors_only_def)

lemma ceo_transpose_call:
  assumes "fn = t3d_method (self_grid_partition w) op"
  shows "collaborator_errors_only w g (transpose_call op fn a out)"
  unfolding transpose_call_def using assms by (intro ceo_call) (simp add: raised_by_def)

lemma ceo_loop:
  assumes "fn = t3d_method (self_grid_partition w) op" "r = self_data_reshaper w"
  shows "collaborator_errors_only w g (transpose_loop op fn r data ics buf)"
proof (induction ics arbitrary: buf)
  case Nil
  show ?case by simp
next
  case (Cons ic ics)
  show ?case
    unfolding transpose_loop.simps
    by (intro ceo_and_then ceo_call ceo_transpose_call [OF assms(1)] Cons.IH)
       (simp add: raised_by_def assms(2))
qed

lemma ceo_single:
  assumes "fn = t3d_method (self_grid_partition w) op" "r = self_data_reshaper w"
  shows "collaborator_errors_only w g (transpose_single op fn r sizes g data)"
  unfolding transpose_single_def Let_def
  by (intro ceo_and_then ceo_call ceo_transpose_call [OF assms(1)])
     (simp_all add: raised_by_def assms(2))

lemma ceo_multi:
  assumes "fn = t3d_method (self_grid_partition w) op" "r = self_data_reshaper w"
  shows "collaborator_errors_only w g (transpose_multi op fn r sizes g data C)"
  unfolding transpose_multi_def
  by (intro ceo_and_then ceo_call ceo_loop [OF assms])
     (simp_all add: raised_by_def assms(2))

lemma errors_from_collaborators:
  assumes "all_isreal data"
  shows "collaborator_errors_only w g (transposeToPencil w g data)"
    and "collaborator_errors_only w g (transposeFromPencil w g data)"
  using assms
  by (simp_all add: transposeToPencil_eq transposeFromPencil_eq ceo_single ceo_multi)

lemma reshape_indices_append [simp]:
  "reshape_indices (tr1 @ tr2) = reshape_indices tr1 @ reshape_indices tr2"
  by (induction tr1 rule: reshape_indices.induct) simp_all

lemma fst_and_then:
  "fst (and_then m f) = fst m @ (case snd m of Inl e \<Rightarrow> [] | Inr a \<Rightarrow> fst (f a))"
  by (cases m; cases "snd m") (auto simp: and_then_def split: prod.splits)

lemma fst_call [simp]: "fst (call ev r) = [ev]" "snd (call ev r) = r"
  by (simp_all add: call_def)

lemma fst_transpose_call [simp]:
  "fst (transpose_call op fn a out) = [T3dTranspose op a out]"
  "snd (transpose_call op fn a out) = fn a out"
  by (simp_all add: transpose_call_def)

lemma transpose_loop_trace:
  "set (reshape_indices (fst (transpose_loop op fn r data ics buf))) \<subseteq> Some ` set ics
   \<and> fst ` set (transposes (fst (transpose_loop op fn r data ics buf))) \<subseteq> {op}
   \<and> length (transposes (fst (transpose_loop op fn r data ics buf))) \<le> length ics"
proof (induction ics arbitrary: buf)
  case Nil
  show ?case by simp
next
  case (Cons ic ics)
  show ?case
  proof (cases "reshapeTo3d r data (Some ic)")
    case (Inl e)
    then show ?thesis by (simp add: fst_and_then)
  next
    case a: (Inr a)
    show ?thesis
    proof (cases "fn a (component_view buf ic)")
      case (Inl e)
      with a show ?thesis by (simp add: fst_and_then)
    next
      case (Inr new)
      with a Cons.IH [of "write_component buf ic new"] show ?thesis
        by (auto simp: fst_and_then)
    qed
  qed
qed

lemma transpose_single_trace:
  "(\<exists>rest. fst (transpose_single op fn r sizes g data)
             = NumpyEmpty (map sint sizes) (dtype data) # rest)
   \<and> set (reshape_indices (fst (transpose_single op fn r sizes g data))) \<subseteq> {None}
   \<and> fst ` set (transposes (fst (transpose_single op fn r sizes g data))) \<subseteq> {op}
   \<and> length (transposes (fst (transpose_single op fn r sizes g data))) \<le> 1"
  unfolding transpose_single_def Let_def
  by (simp add: fst_and_then split: sum.splits)

lemma transpose_multi_trace:
  "(\<exists>rest. fst (transpose_multi op fn r sizes g data C)
             = NumpyEmpty (map sint sizes @ [int C]) (dtype data) # rest)
   \<and> set (reshape_indices (fst (transpose_multi op fn r sizes g data C))) \<subseteq> Some ` {0 ..< C}
   \<and> fst ` set (transposes (fst (transpose_multi op fn r sizes g data C))) \<subseteq> {op}
   \<and> length (transposes (fst (transpose_multi op fn r sizes g data C))) \<le> C"
proof -
  have "\<And>buf. set (reshape_indices (fst (transpose_loop op fn r data [0 ..< C] buf))) \<subseteq> Some ` {0 ..< C}"
    "\<And>buf. fst ` set (transposes (fst (transpose_loop op fn r data [0 ..< C] buf))) \<subseteq> {op}"
    "\<And>buf. length (transposes (fst (transpose_loop op fn r data [0 ..< C] buf))) \<le> C"
    using transpose_loop_trace [of op fn r data "[0 ..< C]"] by simp_all
  then show ?thesis
    unfolding transpose_multi_def
    by (simp add: fst_and_then split: sum.splits)
qed

lemma first_call_iff: "first_call tr ev \<longleftrightarrow> (\<exists>rest. tr = ev # rest)"
  by (cases tr) (auto simp: first_call_def)

lemma single_component_runI:
  "single_component_run (map sint sizes) (dtype data)
     (fst (transpose_single op fn r sizes g data))"
  using transpose_single_trace [of op fn r sizes g data]
  unfolding single_component_run_def first_call_iff list_all_iff by blast

lemma multi_component_runI:
  "multi_component_run (map sint sizes) C (dtype data)
     (fst (transpose_multi op fn r sizes g data C))"
proof -
  note T = transpose_multi_trace [of op fn r sizes g data C]
  have "list_all (\<lambda>c. case c of None \<Rightarrow> False | Some ic \<Rightarrow> ic < C)
          (reshape_indices (fst (transpose_multi op fn r sizes g data C)))"
    unfolding list_all_iff using T by auto
  with T show ?thesis unfolding multi_component_run_def first_call_iff by blast
qed

lemma first_call_single:
  "first_call (fst (transpose_single op fn r sizes g data)) (NumpyEmpty (map sint sizes) (dtype data))"
  using single_component_runI [of sizes data op fn r g] by (simp add: single_component_run_def)

lemma first_call_multi:
  "first_call (fst (transpose_multi op fn r sizes g data C))
     (NumpyEmpty (map sint sizes @ [int C]) (dtype data))"
  using multi_component_runI [of sizes C data op fn r g] by (simp add: multi_component_run_def)

lemma transposeToPencil_real:
  assumes "all_isreal data"
  shows "num_components (self_dim w) data = 1 \<Longrightarrow>
           transposeToPencil w g data
             = transpose_single (to_pencil_op (self_direction w))
                 (to_pencil_fn (self_grid_partition w) (self_direction w)) (self_data_reshaper w)
                 (self_pencil_size w) g data"
    and "num_components (self_dim w) data \<noteq> 1 \<Longrightarrow>
           transposeToPencil w g data
             = transpose_multi (to_pencil_op (self_direction w))
                 (to_pencil_fn (self_grid_partition w) (self_direction w)) (self_data_reshaper w)
                 (self_pencil_size w) g data (num_components (self_dim w) data)"
  using assms by (simp_all add: transposeToPencil_eq)

lemma transposeFromPencil_real:
  assumes "all_isreal data"
  shows "num_components (self_dim w) data = 1 \<Longrightarrow>
           transposeFromPencil w g data
             = transpose_single (from_pencil_op (self_direction w))
                 (from_pencil_fn (self_grid_partition w) (self_direction w)) (self_data_reshaper w)
                 (self_3d_size w) g data"
    and "num_components (self_dim w) data \<noteq> 1 \<Longrightarrow>
           transposeFromPencil w g data
             = transpose_multi (from_pencil_op (self_direction w))
                 (from_pencil_fn (self_grid_partition w) (self_direction w)) (self_data_reshaper w)
                 (self_3d_size w) g data (num_components (self_dim w) data)"
  using assms by (simp_all add: transposeFromPencil_eq)

subsection \<open>Auxiliary facts\<close>

lemma fill3_id: "length xs = 3 \<Longrightarrow> fill3 xs = xs"
  by (simp add: fill3_def)

lemma sint_minus_one:
  fixes x :: int32
  assumes "- (2 ^ 31) < sint x"
  shows "sint (x - 1) = sint x - 1"
proof -
  have "sint x < 2 ^ 31" using sint_lt [of x] by simp
  with assms have "signed_take_bit 31 (sint x - 1) = sint x - 1"
    by (intro signed_take_bit_int_eq_self) simp_all
  then show ?thesis by (simp add: sint_word_diff)
qed

lemma ex_init: "TransposeWrapper_init (T3d ex_gp) 1 3 = (map T3dGet (init_getters 1), Inr ex_w)"
  by (simp add: TransposeWrapper_init_def ex_w_def ex_gp_def fill3_def get_pencil_sz_def
      get_pencil_st_def get_pencil_en_def)

lemmas ex_defs = ex_w_def ex_gp_def ex_rev_def ex_g_def ex_A_def ex_B_def

lemma upt_6: "[0..<6] = [0, 1, 2, 3, 4, 5]"
  by (simp add: upt_rec)

lemma ex_to_pencil: "snd (transposeToPencil ex_w ex_g ex_A) = Inr ex_B"
  by (simp add: ex_defs transposeToPencil_def transposeToPencil_single_def to_pencil_call_def
      all_isreal_def isreal_def ndim_def numpy_empty_def reshapeTo3d_def reshapeFrom3d_def
      and_then_def call_def write_elems_def upt_6 Let_def)

lemma ex_from_pencil: "snd (transposeFromPencil ex_w ex_g ex_B) = Inr ex_A"
  by (simp add: ex_defs transposeFromPencil_def transposeFromPencil_single_def from_pencil_call_def
      all_isreal_def isreal_def ndim_def numpy_empty_def reshapeTo3d_def reshapeFrom3d_def
      and_then_def call_def write_elems_def upt_6 Let_def)

lemma run_eqI: "snd m = r \<Longrightarrow> m = (fst m, r)"
  by (cases m) simp

subsection \<open>The constructor\<close>

text \<open>
  C4. A direction outside \<open>[0, dimension)\<close> or a dimension other than 2 and 3 makes the
  constructor raise \<^verbatim>\<open>RuntimeError\<close> (the specification's InvalidConfiguration): no
  adapter is returned, and the run holds no call to the grid partition at all, so none
  to a directional transpose.
\<close>

theorem illegal_configuration_rejected:
  assumes "direction < 0 \<or> dimension \<le> direction \<or> dimension \<notin> {2, 3}"
  shows "\<exists>msg. TransposeWrapper_init grid_partition direction dimension
                 = ([], Inl (RuntimeError msg))"
  using assms by (cases grid_partition) (auto simp: TransposeWrapper_init_def)

theorem illegal_configuration_rejected_witness:
  "((2::int) < 0 \<or> (2::int) \<le> 2 \<or> (2::int) \<notin> {2, 3})
   \<and> TransposeWrapper_init (T3d ex_gp) 2 2
       = ([], Inl (RuntimeError ''Direction to transpose is not allowed with the dimensinality of data!''))"
  using illegal_configuration_rejected [of 2 2 "T3d ex_gp"]
  by (simp add: TransposeWrapper_init_def)

text \<open>
  C6. When the pencil getters of the chosen direction return 1-based bounds with
  \<open>en = st + sz - 1\<close> in every slot, the cached bounds are the returned ones minus 1,
  and \<open>hi - lo + 1\<close> is the pencil size, in each of the \<open>dimension\<close> components that
  \<^verbatim>\<open>full_pencil\<close> and \<^verbatim>\<open>full_pencil_size\<close> return.
\<close>

theorem pencil_bounds_consistent:
  fixes gp :: "'v t3d"
  assumes init: "TransposeWrapper_init (T3d gp) direction dimension = (tr, Inr w)"
    and len: "length (get_pencil_sz gp direction) = 3"
             "length (get_pencil_st gp direction) = 3"
             "length (get_pencil_en gp direction) = 3"
    and consistent: "\<forall>i < 3. sint (get_pencil_en gp direction ! i)
                       = sint (get_pencil_st gp direction ! i) + sint (get_pencil_sz gp direction ! i) - 1"
    and one_based: "\<forall>i < 3. 1 \<le> sint (get_pencil_st gp direction ! i)"
    and sizes: "\<forall>i < 3. 0 \<le> sint (get_pencil_sz gp direction ! i)"
    and i: "i < nat dimension"
  shows "length (fst (full_pencil w)) = nat dimension
         \<and> length (snd (full_pencil w)) = nat dimension
         \<and> length (full_pencil_size w) = nat dimension
         \<and> sint (fst (full_pencil w) ! i) = sint (get_pencil_st gp direction ! i) - 1
         \<and> sint (snd (full_pencil w) ! i) = sint (get_pencil_en gp direction ! i) - 1
         \<and> sint (snd (full_pencil w) ! i) - sint (fst (full_pencil w) ! i) + 1
             = sint (full_pencil_size w ! i)"
proof -
  from init have dims: "dimension = 2 \<or> dimension = 3"
    by (auto simp: TransposeWrapper_init_def split: if_splits)
  with i have i3: "i < 3" by auto
  from init have w: "self_dim w = dimension"
      "self_pencil_size w = get_pencil_sz gp direction"
      "self_pencil_lo w = map (\<lambda>x. x - 1) (get_pencil_st gp direction)"
      "self_pencil_hi w = map (\<lambda>x. x - 1) (get_pencil_en gp direction)"
    using len by (auto simp: TransposeWrapper_init_def fill3_id split: if_splits)
  have st: "1 \<le> sint (get_pencil_st gp direction ! i)" using one_based i3 by simp
  have sz: "0 \<le> sint (get_pencil_sz gp direction ! i)" using sizes i3 by simp
  have en: "sint (get_pencil_en gp direction ! i)
              = sint (get_pencil_st gp direction ! i) + sint (get_pencil_sz gp direction ! i) - 1"
    using consistent i3 by simp
  have lo: "sint (get_pencil_st gp direction ! i - 1) = sint (get_pencil_st gp direction ! i) - 1"
    using st by (intro sint_minus_one) simp
  have hi: "sint (get_pencil_en gp direction ! i - 1) = sint (get_pencil_en gp direction ! i) - 1"
    using st sz en by (intro sint_minus_one) simp
  show ?thesis
    using dims i i3 len lo hi en by (auto simp: full_pencil_def full_pencil_size_def w)
qed

theorem pencil_bounds_consistent_witness:
  "TransposeWrapper_init (T3d ex_gp) 1 3 = (map T3dGet (init_getters 1), Inr ex_w)
   \<and> full_pencil ex_w = ([0, 0, 0], [2, 1, 0])
   \<and> full_pencil_size ex_w = [3, 2, 1]
   \<and> sint (snd (full_pencil ex_w) ! 0) - sint (fst (full_pencil ex_w) ! 0) + 1
        = sint (full_pencil_size ex_w ! 0)"
proof -
  have c: "\<forall>i<3. sint (get_pencil_en ex_gp 1 ! i)
                  = sint (get_pencil_st ex_gp 1 ! i) + sint (get_pencil_sz ex_gp 1 ! i) - 1"
    by (simp add: get_pencil_en_def get_pencil_st_def get_pencil_sz_def ex_gp_def
        All_less_Suc2 numeral_3_eq_3)
  have o: "\<forall>i<3. 1 \<le> sint (get_pencil_st ex_gp 1 ! i)"
    by (simp add: get_pencil_st_def ex_gp_def All_less_Suc2 numeral_3_eq_3)
  have s: "\<forall>i<3. 0 \<le> sint (get_pencil_sz ex_gp 1 ! i)"
    by (simp add: get_pencil_sz_def ex_gp_def All_less_Suc2 numeral_3_eq_3)
  have l: "length (get_pencil_sz ex_gp 1) = 3" "length (get_pencil_st ex_gp 1) = 3"
      "length (get_pencil_en ex_gp 1) = 3"
    by (simp_all add: get_pencil_en_def get_pencil_st_def get_pencil_sz_def ex_gp_def)
  have "(0::nat) < nat 3" by simp
  from pencil_bounds_consistent [OF ex_init l c o s this] ex_init
  show ?thesis by (simp add: full_pencil_def full_pencil_size_def ex_w_def)
qed

subsection \<open>The realness guard\<close>

text \<open>
  C3. An input with an element whose imaginary part is not zero makes both transposes
  raise \<^verbatim>\<open>ValueError\<close> (the specification's InvalidInput) with an empty run: no buffer
  was allocated, no transpose of the grid partition was called, nothing is returned.
\<close>

theorem complex_input_rejected:
  assumes "\<exists>e \<in> set (elems data). im e \<noteq> 0"
  shows "transposeToPencil w g data
           = ([], Inl (ValueError ''The given data is complex! Only real data can be transposed.''))
         \<and> transposeFromPencil w g' data
           = ([], Inl (ValueError ''The given data is complex! Only real data can be transposed.''))"
  using assms
  by (auto simp: transposeToPencil_def transposeFromPencil_def all_isreal_def list_all_iff isreal_def)

theorem complex_input_rejected_witness:
  "(\<exists>e \<in> set [Elem 1 0, Elem 2 (5::int)]. im e \<noteq> 0)
   \<and> transposeToPencil ex_w (\<lambda>_. Elem 0 0) \<lparr>shape = [2], dtype = Complex128, elems = [Elem 1 0, Elem 2 5]\<rparr>
       = ([], Inl (ValueError ''The given data is complex! Only real data can be transposed.''))
   \<and> transposeFromPencil ex_w (\<lambda>_. Elem 0 0) \<lparr>shape = [2], dtype = Complex128, elems = [Elem 1 0, Elem 2 5]\<rparr>
       = ([], Inl (ValueError ''The given data is complex! Only real data can be transposed.''))"
  using complex_input_rejected [of "\<lparr>shape = [2], dtype = Complex128, elems = [Elem 1 0, Elem 2 5]\<rparr>"
      ex_w "\<lambda>_. Elem 0 0" "\<lambda>_. Elem 0 0"]
  by simp

subsection \<open>Shapes\<close>

text \<open>
  C2. For an adapter built by the constructor: whenever \<^verbatim>\<open>transposeToPencil\<close> returns an
  array, its first \<open>dimension\<close> extents are \<^verbatim>\<open>full_pencil_size\<close>; whenever
  \<^verbatim>\<open>transposeFromPencil\<close> returns an array, its first \<open>dimension\<close> extents are those
  of the cached natural block \<^verbatim>\<open>self._3d_size\<close>.
\<close>

theorem shape_contract:
  assumes init: "TransposeWrapper_init grid_partition direction dimension = (tr0, Inr w)"
  shows "(transposeToPencil w g A = (tr, Inr B) \<longrightarrow>
            map int (take (nat dimension) (shape B)) = map sint (full_pencil_size w))
       \<and> (transposeFromPencil w g' B' = (tr', Inr A') \<longrightarrow>
            map int (take (nat dimension) (shape A'))
              = map sint (take (nat dimension) (self_3d_size w)))"
proof (intro conjI impI)
  note f = init_facts [OF init]
  have d: "nat (dr_dim (self_data_reshaper w)) \<le> 3" using f(3,8) by auto
  {
    assume run: "transposeToPencil w g A = (tr, Inr B)"
    then have real: "all_isreal A" by (auto simp: transposeToPencil_eq split: if_splits)
    from run have "(if num_components (self_dim w) A = 1
        then transpose_single (to_pencil_op (self_direction w))
             (to_pencil_fn (self_grid_partition w) (self_direction w)) (self_data_reshaper w)
             (self_pencil_size w) g A
        else transpose_multi (to_pencil_op (self_direction w))
             (to_pencil_fn (self_grid_partition w) (self_direction w)) (self_data_reshaper w)
             (self_pencil_size w) g A (num_components (self_dim w) A)) = (tr, Inr B)"
      unfolding transposeToPencil_eq using real by simp
    from transpose_run_shape [OF f(6) d this]
    show "map int (take (nat dimension) (shape B)) = map sint (full_pencil_size w)"
      by (simp only: f(8) full_pencil_size_def f(1))
  }
  {
    assume run: "transposeFromPencil w g' B' = (tr', Inr A')"
    then have real: "all_isreal B'" by (auto simp: transposeFromPencil_eq split: if_splits)
    from run have "(if num_components (self_dim w) B' = 1
        then transpose_single (from_pencil_op (self_direction w))
             (from_pencil_fn (self_grid_partition w) (self_direction w)) (self_data_reshaper w)
             (self_3d_size w) g' B'
        else transpose_multi (from_pencil_op (self_direction w))
             (from_pencil_fn (self_grid_partition w) (self_direction w)) (self_data_reshaper w)
             (self_3d_size w) g' B' (num_components (self_dim w) B')) = (tr', Inr A')"
      unfolding transposeFromPencil_eq using real by simp
    from transpose_run_shape [OF f(7) d this]
    show "map int (take (nat dimension) (shape A'))
              = map sint (take (nat dimension) (self_3d_size w))"
      by (simp only: f(8))
  }
qed

theorem shape_contract_witness:
  "TransposeWrapper_init (T3d ex_gp) 1 3 = (map T3dGet (init_getters 1), Inr ex_w)
   \<and> snd (transposeToPencil ex_w ex_g ex_A) = Inr ex_B
   \<and> map int (take (nat 3) (shape ex_B)) = map sint (full_pencil_size ex_w)
   \<and> snd (transposeFromPencil ex_w ex_g ex_B) = Inr ex_A
   \<and> map int (take (nat 3) (shape ex_A)) = map sint (take (nat 3) (self_3d_size ex_w))"
proof -
  note a = run_eqI [OF ex_to_pencil] and b = run_eqI [OF ex_from_pencil]
  from shape_contract [OF ex_init, of ex_g ex_A _ ex_B ex_g ex_B _ ex_A] a b
  have "map int (take (nat 3) (shape ex_B)) = map sint (full_pencil_size ex_w)"
    and "map int (take (nat 3) (shape ex_A)) = map sint (take (nat 3) (self_3d_size ex_w))"
    by blast+
  with ex_init ex_to_pencil ex_from_pencil show ?thesis by blast
qed

subsection \<open>Element types and the number of components\<close>

lemmas run_defs = transposeToPencil_def transposeToPencil_single_def to_pencil_call_def
  transposeFromPencil_def transposeFromPencil_single_def from_pencil_call_def
  all_isreal_def isreal_def ndim_def numpy_empty_def reshapeTo3d_def reshapeFrom3d_def
  and_then_def call_def write_elems_def upt_6 Let_def

text \<open>
  C9. The guard looks at the imaginary parts, not at the element type: an array whose
  imaginary parts are all zero passes it whatever its element type, and both methods go
  on to allocate the working buffer with that element type.
\<close>

theorem zero_imaginary_accepted:
  assumes "\<forall>e \<in> set (elems data). im e = 0"
  shows "(\<exists>shp. first_call (fst (transposeToPencil w g data)) (NumpyEmpty shp (dtype data)))
       \<and> (\<exists>shp. first_call (fst (transposeFromPencil w g' data)) (NumpyEmpty shp (dtype data)))"
proof -
  from assms have real: "all_isreal data"
    by (simp add: all_isreal_def list_all_iff isreal_def)
  show ?thesis
  proof (cases "num_components (self_dim w) data = 1")
    case True
    show ?thesis
      unfolding transposeToPencil_real(1) [OF real True] transposeFromPencil_real(1) [OF real True]
      using first_call_single by blast
  next
    case False
    show ?thesis
      unfolding transposeToPencil_real(2) [OF real False] transposeFromPencil_real(2) [OF real False]
      using first_call_multi by blast
  qed
qed

theorem zero_imaginary_accepted_witness:
  "all_isreal ex_C \<and> dtype ex_C = Complex128
   \<and> first_call (fst (transposeToPencil ex_w ex_g ex_C)) (NumpyEmpty [3, 2, 1] Complex128)
   \<and> first_call (fst (transposeFromPencil ex_w ex_g ex_C)) (NumpyEmpty [2, 3, 1] Complex128)"
  using zero_imaginary_accepted [of ex_C ex_w ex_g ex_g]
  by (simp add: ex_defs ex_C_def run_defs first_call_def)

text \<open>
  C10. For a real input the number of components is read from the trailing axis exactly
  when the input has \<open>dimension + 1\<close> axes. With another number of axes, or with a
  trailing axis of extent 1, the run is that of the single-component branch: the buffer
  has no component axis, the reshaper is called without a component index and at most
  one transpose is called. Otherwise the buffer has the component axis and the reshaper
  is called with component indices below the count. In both cases an exception, if one
  ends the run, is the one the last collaborator call raised: the method raises none of
  its own about the number of axes.
\<close>

theorem component_count:
  assumes real: "all_isreal data"
    and C: "C = shape data ! nat (self_dim w)"
  shows "(if int (ndim data) = self_dim w + 1 \<and> C \<noteq> 1
          then multi_component_run (map sint (self_pencil_size w)) C (dtype data)
                 (fst (transposeToPencil w g data))
             \<and> multi_component_run (map sint (self_3d_size w)) C (dtype data)
                 (fst (transposeFromPencil w g data))
          else single_component_run (map sint (self_pencil_size w)) (dtype data)
                 (fst (transposeToPencil w g data))
             \<and> single_component_run (map sint (self_3d_size w)) (dtype data)
                 (fst (transposeFromPencil w g data)))
       \<and> collaborator_errors_only w g (transposeToPencil w g data)
       \<and> collaborator_errors_only w g (transposeFromPencil w g data)"
proof (cases "int (ndim data) = self_dim w + 1 \<and> C \<noteq> 1")
  case True
  then have nc: "num_components (self_dim w) data \<noteq> 1" "num_components (self_dim w) data = C"
    by (simp_all add: num_components_def C)
  have "multi_component_run (map sint (self_pencil_size w)) C (dtype data)
          (fst (transposeToPencil w g data))"
    unfolding transposeToPencil_real(2) [OF real nc(1)] nc(2) by (rule multi_component_runI)
  moreover have "multi_component_run (map sint (self_3d_size w)) C (dtype data)
          (fst (transposeFromPencil w g data))"
    unfolding transposeFromPencil_real(2) [OF real nc(1)] nc(2) by (rule multi_component_runI)
  ultimately show ?thesis
    using errors_from_collaborators [OF real, of w g] True by (simp only: if_True simp_thms)
next
  case False
  then have nc: "num_components (self_dim w) data = 1"
    by (auto simp: num_components_def C)
  have "single_component_run (map sint (self_pencil_size w)) (dtype data)
          (fst (transposeToPencil w g data))"
    unfolding transposeToPencil_real(1) [OF real nc] by (rule single_component_runI)
  moreover have "single_component_run (map sint (self_3d_size w)) (dtype data)
          (fst (transposeFromPencil w g data))"
    unfolding transposeFromPencil_real(1) [OF real nc] by (rule single_component_runI)
  ultimately show ?thesis
    using errors_from_collaborators [OF real, of w g] False by (simp only: if_False simp_thms)
qed

theorem component_count_witness:
  "all_isreal ex_T \<and> int (ndim ex_T) = self_dim ex_w + 1 \<and> shape ex_T ! nat (self_dim ex_w) = 1
   \<and> single_component_run [3, 2, 1] Float64 (fst (transposeToPencil ex_w ex_g ex_T))
   \<and> single_component_run [2, 3, 1] Float64 (fst (transposeFromPencil ex_w ex_g ex_T))
   \<and> collaborator_errors_only ex_w ex_g (transposeToPencil ex_w ex_g ex_T)
   \<and> collaborator_errors_only ex_w ex_g (transposeFromPencil ex_w ex_g ex_T)"
  using component_count [of ex_T 1 ex_w ex_g]
  by (simp add: ex_defs ex_T_def run_defs)

subsection \<open>The calls of transposeFromPencil\<close>

lemma list_all_fst_op:
  assumes "fst ` set xs \<subseteq> {op}"
  shows "list_all (\<lambda>p. fst p = op) xs"
  using assms unfolding list_all_iff by auto

lemma upt_2: "[0..<2] = [0, 1]"
  by (simp add: upt_rec)

lemma upt_12: "[0..<12] = [0, 1, 2, 3, 4, 5, 6, 7, 8, 9, 10, 11]"
  by (simp add: upt_rec)

lemmas multi_run_defs = transposeToPencil_multi_def transposeFromPencil_multi_def
  component_view_def write_component_def upt_2 upt_12

lemma ex_from_pencil_multi:
  "transposeFromPencil ex_w ex_g ex_B2 =
     ([NumpyEmpty [2, 3, 1, 2] Float64,
       ReshapeTo3d ex_B2 (Some 0),
       T3dTranspose Transpose_y_to_3d
         \<lparr>shape = [3, 2, 1], dtype = Float64,
           elems = [Elem 6 0, Elem 5 0, Elem 4 0, Elem 3 0, Elem 2 0, Elem 1 0]\<rparr>
         \<lparr>shape = [2, 3, 1], dtype = Float64,
           elems = [Elem 0 0, Elem 0 0, Elem 0 0, Elem 0 0, Elem 0 0, Elem 0 0]\<rparr>,
       ReshapeTo3d ex_B2 (Some 1),
       T3dTranspose Transpose_y_to_3d
         \<lparr>shape = [3, 2, 1], dtype = Float64,
           elems = [Elem 12 0, Elem 11 0, Elem 10 0, Elem 9 0, Elem 8 0, Elem 7 0]\<rparr>
         \<lparr>shape = [2, 3, 1], dtype = Float64,
           elems = [Elem 0 0, Elem 0 0, Elem 0 0, Elem 0 0, Elem 0 0, Elem 0 0]\<rparr>,
       ReshapeFrom3d ex_A2],
      Inr ex_A2)"
  by (simp add: ex_defs ex_A2_def ex_B2_def run_defs multi_run_defs)

lemma ex_to_pencil_multi:
  "transposeToPencil ex_w ex_g ex_A2 =
     ([NumpyEmpty [3, 2, 1, 2] Float64,
       ReshapeTo3d ex_A2 (Some 0),
       T3dTranspose Transpose_3d_to_y
         \<lparr>shape = [2, 3, 1], dtype = Float64,
           elems = [Elem 1 0, Elem 2 0, Elem 3 0, Elem 4 0, Elem 5 0, Elem 6 0]\<rparr>
         \<lparr>shape = [3, 2, 1], dtype = Float64,
           elems = [Elem 0 0, Elem 0 0, Elem 0 0, Elem 0 0, Elem 0 0, Elem 0 0]\<rparr>,
       ReshapeTo3d ex_A2 (Some 1),
       T3dTranspose Transpose_3d_to_y
         \<lparr>shape = [2, 3, 1], dtype = Float64,
           elems = [Elem 7 0, Elem 8 0, Elem 9 0, Elem 10 0, Elem 11 0, Elem 12 0]\<rparr>
         \<lparr>shape = [3, 2, 1], dtype = Float64,
           elems = [Elem 0 0, Elem 0 0, Elem 0 0, Elem 0 0, Elem 0 0, Elem 0 0]\<rparr>,
       ReshapeFrom3d ex_B2],
      Inr ex_B2)"
  by (simp add: ex_defs ex_A2_def ex_B2_def run_defs multi_run_defs)

text \<open>
  C8. For an adapter built by the constructor and a real input with \<open>C \<ge> 1\<close>
  components, \<^verbatim>\<open>transposeFromPencil\<close> first asks \<^verbatim>\<open>numpy.empty\<close> for a buffer of the
  cached natural block size, with a trailing axis \<open>C\<close> when \<open>C > 1\<close>, and of the
  element type of the input. Every transpose it calls is the one from the pencil of the
  configured direction (x for 0, y for 1, z for 2), and a run that returns has called it
  \<open>C\<close> times.
\<close>

theorem from_pencil_buffer_and_transpose:
  assumes init: "TransposeWrapper_init (T3d gp) direction dimension = (tr0, Inr w)"
    and real: "all_isreal data"
    and C: "C = (if int (ndim data) = dimension + 1 then shape data ! nat dimension else 1)"
    and pos: "1 \<le> C"
  shows "first_call (fst (transposeFromPencil w g data))
           (NumpyEmpty (map sint (self_3d_size w) @ (if 1 < C then [int C] else [])) (dtype data))
       \<and> list_all (\<lambda>p. fst p = (if direction = 0 then Transpose_x_to_3d
                                 else if direction = 1 then Transpose_y_to_3d
                                 else Transpose_z_to_3d))
           (transposes (fst (transposeFromPencil w g data)))
       \<and> (direction = 0 \<or> direction = 1 \<or> direction = 2)
       \<and> (\<forall>A. snd (transposeFromPencil w g data) = Inr A \<longrightarrow>
             length (transposes (fst (transposeFromPencil w g data))) = C)"
proof -
  note f = init_facts [OF init]
  let ?op = "from_pencil_op (self_direction w)"
  let ?fn = "from_pencil_fn (self_grid_partition w) (self_direction w)"
  let ?r = "self_data_reshaper w"
  have nc: "num_components (self_dim w) data = C" by (simp add: num_components_def C f(1))
  have op: "?op = (if direction = 0 then Transpose_x_to_3d
                   else if direction = 1 then Transpose_y_to_3d else Transpose_z_to_3d)"
    by (simp add: from_pencil_op_def f(2))
  have dir: "direction = 0 \<or> direction = 1 \<or> direction = 2" using f(3,4,5) by auto
  have dle: "nat (dr_dim ?r) \<le> 3" using f(3,8) by auto
  show ?thesis
  proof (cases "C = 1")
    case True
    let ?run = "transpose_single ?op ?fn ?r (self_3d_size w) g data"
    have eq: "transposeFromPencil w g data = ?run"
      using transposeFromPencil_real(1) [OF real] nc True by simp
    have a: "first_call (fst ?run) (NumpyEmpty (map sint (self_3d_size w)) (dtype data))"
      by (rule first_call_single)
    have b: "list_all (\<lambda>p. fst p = ?op) (transposes (fst ?run))"
      using transpose_single_trace [of ?op ?fn ?r "self_3d_size w" g data]
      by (intro list_all_fst_op) blast
    have c: "length (transposes (fst ?run)) = C" if "snd ?run = Inr A" for A
    proof -
      from that have "?run = (fst ?run, Inr A)" by (rule run_eqI)
      from transpose_single_success(5) [OF this f(7)] True show ?thesis by simp
    qed
    show ?thesis unfolding eq using a b c dir True by (simp add: op)
  next
    case False
    with pos have gt: "1 < C" by simp
    let ?run = "transpose_multi ?op ?fn ?r (self_3d_size w) g data C"
    have eq: "transposeFromPencil w g data = ?run"
      using transposeFromPencil_real(2) [OF real] nc False by simp
    have a: "first_call (fst ?run) (NumpyEmpty (map sint (self_3d_size w) @ [int C]) (dtype data))"
      by (rule first_call_multi)
    have b: "list_all (\<lambda>p. fst p = ?op) (transposes (fst ?run))"
      using transpose_multi_trace [of ?op ?fn ?r "self_3d_size w" g data C]
      by (intro list_all_fst_op) blast
    have c: "length (transposes (fst ?run)) = C" if "snd ?run = Inr A" for A
    proof -
      from that have "?run = (fst ?run, Inr A)" by (rule run_eqI)
      from transpose_multi_success(7) [OF this f(7) dle]
      have "length (map fst (transposes (fst ?run))) = length (replicate C ?op)" by simp
      then show ?thesis by simp
    qed
    show ?thesis unfolding eq using a b c dir gt by (simp add: op)
  qed
qed

theorem from_pencil_buffer_and_transpose_witness:
  "TransposeWrapper_init (T3d ex_gp) 1 3 = (map T3dGet (init_getters 1), Inr ex_w)
   \<and> all_isreal ex_B2
   \<and> first_call (fst (transposeFromPencil ex_w ex_g ex_B2)) (NumpyEmpty [2, 3, 1, 2] Float64)
   \<and> map fst (transposes (fst (transposeFromPencil ex_w ex_g ex_B2)))
        = [Transpose_y_to_3d, Transpose_y_to_3d]
   \<and> snd (transposeFromPencil ex_w ex_g ex_B2) = Inr ex_A2
   \<and> length (transposes (fst (transposeFromPencil ex_w ex_g ex_B2))) = 2"
proof -
  have real: "all_isreal ex_B2" by (simp add: ex_B2_def all_isreal_def isreal_def)
  have C: "(2::nat) = (if int (ndim ex_B2) = 3 + 1 then shape ex_B2 ! nat 3 else 1)"
    by (simp add: ex_B2_def ndim_def)
  have pos: "(1::nat) \<le> 2" by simp
  from from_pencil_buffer_and_transpose [OF ex_init real C pos, of ex_g]
  have "length (transposes (fst (transposeFromPencil ex_w ex_g ex_B2))) = 2"
    by (simp add: ex_from_pencil_multi)
  then show ?thesis
    using ex_init real by (simp add: ex_from_pencil_multi first_call_def)
qed

subsection \<open>One transpose per component\<close>

lemma prod_list_replicate_1 [simp]: "prod_list (replicate k (1::nat)) = 1"
  by (induction k) simp_all

lemma prod_list_take_pad:
  assumes "drop d xs = replicate k (1::nat)"
  shows "prod_list (take d xs) = prod_list xs"
proof -
  have "prod_list xs = prod_list (take d xs @ drop d xs)" by simp
  also have "\<dots> = prod_list (take d xs)" unfolding assms by simp
  finally show ?thesis by simp
qed

lemma transpose_multi_per_component:
  assumes run: "transpose_multi op fn r sizes g data C = (tr, Inr B)"
    and len: "length sizes = 3" and dle: "nat (dr_dim r) \<le> 3"
  shows "per_component_run op fn r (fresh g (block_shape sizes @ [C]) (dtype data)) data C tr B"
proof -
  note M = transpose_multi_success [OF run len dle]
  have "prod_list (butlast (shape B)) = prod_list (block_shape sizes)"
    unfolding M(3) using prod_list_take_pad [OF M(2)] by simp
  then have "elems (component_view B c) = chunk (prod_list (block_shape sizes)) c (elems B)" for c
    by (simp add: component_view_chunk)
  with M(6,7,8) show ?thesis unfolding per_component_run_def by simp
qed

text \<open>
  C7. For an adapter built by the constructor and an input with \<open>dimension + 1\<close> axes,
  \<open>C\<close> the extent of the trailing one: a run of \<^verbatim>\<open>transposeToPencil\<close> that returns
  has called the transpose to the pencil of the configured direction exactly \<open>C\<close>
  times, the call number \<open>c\<close> on component \<open>c\<close> of the input, and component \<open>c\<close>
  of the result is what that call wrote; likewise \<^verbatim>\<open>transposeFromPencil\<close> with the
  transpose from the pencil.
\<close>

theorem one_transpose_per_component:
  assumes init: "TransposeWrapper_init (T3d gp) direction dimension = (tr0, Inr w)"
    and multi: "int (ndim data) = dimension + 1"
    and C: "C = shape data ! nat dimension"
  shows "(\<forall>tr B. transposeToPencil w g data = (tr, Inr B) \<longrightarrow>
            per_component_run (to_pencil_op direction) (to_pencil_fn gp direction)
              (self_data_reshaper w)
              (fresh g (block_shape (self_pencil_size w) @ [C]) (dtype data)) data C tr B)
       \<and> (\<forall>tr A. transposeFromPencil w g data = (tr, Inr A) \<longrightarrow>
            per_component_run (from_pencil_op direction) (from_pencil_fn gp direction)
              (self_data_reshaper w)
              (fresh g (block_shape (self_3d_size w) @ [C]) (dtype data)) data C tr A)"
proof (intro conjI allI impI)
  note f = init_facts [OF init]
  have gp: "self_grid_partition w = gp" using f(9) by simp
  have nc: "num_components (self_dim w) data = C" by (simp add: num_components_def C f(1) multi)
  have dle: "nat (dr_dim (self_data_reshaper w)) \<le> 3" using f(3,8) by auto
  have nd: "int (ndim data) \<noteq> dr_dim (self_data_reshaper w)" using multi f(8) by simp
  {
    fix tr B assume run: "transposeToPencil w g data = (tr, Inr B)"
    then have real: "all_isreal data" by (auto simp: transposeToPencil_eq split: if_splits)
    have "C \<noteq> 1"
    proof
      assume "C = 1"
      with run transposeToPencil_real(1) [OF real, of w g] nc
      have "transpose_single (to_pencil_op (self_direction w))
              (to_pencil_fn (self_grid_partition w) (self_direction w)) (self_data_reshaper w)
              (self_pencil_size w) g data = (tr, Inr B)" by simp
      from transpose_single_success(2) [OF this f(6)] nd show False by simp
    qed
    with run transposeToPencil_real(2) [OF real, of w g] nc
    have "transpose_multi (to_pencil_op direction) (to_pencil_fn gp direction)
            (self_data_reshaper w) (self_pencil_size w) g data C = (tr, Inr B)"
      by (simp add: f(2) gp)
    from transpose_multi_per_component [OF this f(6) dle]
    show "per_component_run (to_pencil_op direction) (to_pencil_fn gp direction)
              (self_data_reshaper w)
              (fresh g (block_shape (self_pencil_size w) @ [C]) (dtype data)) data C tr B" .
  }
  {
    fix tr A assume run: "transposeFromPencil w g data = (tr, Inr A)"
    then have real: "all_isreal data" by (auto simp: transposeFromPencil_eq split: if_splits)
    have "C \<noteq> 1"
    proof
      assume "C = 1"
      with run transposeFromPencil_real(1) [OF real, of w g] nc
      have "transpose_single (from_pencil_op (self_direction w))
              (from_pencil_fn (self_grid_partition w) (self_direction w)) (self_data_reshaper w)
              (self_3d_size w) g data = (tr, Inr A)" by simp
      from transpose_single_success(2) [OF this f(7)] nd show False by simp
    qed
    with run transposeFromPencil_real(2) [OF real, of w g] nc
    have "transpose_multi (from_pencil_op direction) (from_pencil_fn gp direction)
            (self_data_reshaper w) (self_3d_size w) g data C = (tr, Inr A)"
      by (simp add: f(2) gp)
    from transpose_multi_per_component [OF this f(7) dle]
    show "per_component_run (from_pencil_op direction) (from_pencil_fn gp direction)
              (self_data_reshaper w)
              (fresh g (block_shape (self_3d_size w) @ [C]) (dtype data)) data C tr A" .
  }
qed

theorem one_transpose_per_component_witness:
  "TransposeWrapper_init (T3d ex_gp) 1 3 = (map T3dGet (init_getters 1), Inr ex_w)
   \<and> int (ndim ex_A2) = 3 + 1 \<and> shape ex_A2 ! nat 3 = 2
   \<and> snd (transposeToPencil ex_w ex_g ex_A2) = Inr ex_B2
   \<and> map fst (transposes (fst (transposeToPencil ex_w ex_g ex_A2)))
        = [Transpose_3d_to_y, Transpose_3d_to_y]
   \<and> map (\<lambda>p. elems (snd p)) (transposes (fst (transposeToPencil ex_w ex_g ex_A2)))
        = [[Elem 1 0, Elem 2 0, Elem 3 0, Elem 4 0, Elem 5 0, Elem 6 0],
           [Elem 7 0, Elem 8 0, Elem 9 0, Elem 10 0, Elem 11 0, Elem 12 0]]"
proof -
  have m: "int (ndim ex_A2) = 3 + 1" by (simp add: ex_A2_def ndim_def)
  have C: "(2::nat) = shape ex_A2 ! nat 3" by (simp add: ex_A2_def)
  have run: "transposeToPencil ex_w ex_g ex_A2 = (fst (transposeToPencil ex_w ex_g ex_A2), Inr ex_B2)"
    by (rule run_eqI) (simp add: ex_to_pencil_multi)
  from one_transpose_per_component [OF ex_init m C, of ex_g] run
  have "per_component_run (to_pencil_op 1) (to_pencil_fn ex_gp 1) (self_data_reshaper ex_w)
          (fresh ex_g (block_shape (self_pencil_size ex_w) @ [2]) (dtype ex_A2)) ex_A2 2
          (fst (transposeToPencil ex_w ex_g ex_A2)) ex_B2"
    by blast
  then have "map fst (transposes (fst (transposeToPencil ex_w ex_g ex_A2)))
               = replicate 2 (to_pencil_op 1)"
    by (simp add: per_component_run_def)
  then have "map fst (transposes (fst (transposeToPencil ex_w ex_g ex_A2)))
               = [Transpose_3d_to_y, Transpose_3d_to_y]"
    by (simp add: to_pencil_op_def numeral_2_eq_2)
  then show ?thesis
    using ex_init m C by (simp add: ex_to_pencil_multi)
qed

subsection \<open>Shapes are not compared\<close>






subsection \<open>The round trip\<close>

lemma transpose_single_runs:
  assumes nonneg: "\<forall>n \<in> set sizes. 0 \<le> sint n" and len: "length sizes = 3"
    and nd: "int (ndim data) = dr_dim r" "ndim data \<le> 3"
    and pad: "drop (nat (dr_dim r)) (block_shape sizes) = replicate (3 - nat (dr_dim r)) 1"
    and fn: "fn (data\<lparr>shape := shape data @ replicate (3 - ndim data) 1\<rparr>)
               (fresh g (block_shape sizes) (dtype data)) = Inr new"
    and new: "length new = prod_list (block_shape sizes)"
  shows "snd (transpose_single op fn r sizes g data)
           = Inr \<lparr>shape = take (nat (dr_dim r)) (block_shape sizes), dtype = dtype data,
                  elems = new\<rparr>"
proof -
  let ?buf = "fresh g (block_shape sizes) (dtype data)"
  let ?filled = "?buf\<lparr>elems := write_elems (elems ?buf) new\<rparr>"
  let ?B = "\<lparr>shape = take (nat (dr_dim r)) (block_shape sizes), dtype = dtype data, elems = new\<rparr>"
  have a: "reshapeTo3d r data None = Inr (data\<lparr>shape := shape data @ replicate (3 - ndim data) 1\<rparr>)"
    using nd by (simp add: reshapeTo3d_None_iff)
  have w: "write_elems (map g [0 ..< prod_list (block_shape sizes)]) new = new"
    by (rule write_elems_same_length) (simp add: new)
  have n3: "ndim ?filled = 3" using len by (simp add: ndim_def)
  have "reshapeFrom3d r ?filled = Inr ?B"
    unfolding reshapeFrom3d_3_iff [OF n3] using pad by (simp add: w fresh_def)
  with nonneg a fn have "\<exists>tr. transpose_single op fn r sizes g data = (tr, Inr ?B)"
    unfolding transpose_single_Inr_iff by blast
  then show ?thesis by auto
qed

lemma transpose_multi_runs:
  assumes nonneg: "\<forall>n \<in> set sizes. 0 \<le> sint n" and len: "length sizes = 3"
    and dle: "nat (dr_dim r) \<le> 3"
    and pad: "drop (nat (dr_dim r)) (block_shape sizes) = replicate (3 - nat (dr_dim r)) 1"
    and calls: "\<forall>c < C. \<exists>a. reshapeTo3d r data (Some c) = Inr a
                  \<and> fn a (component_view (fresh g (block_shape sizes @ [C]) (dtype data)) c) = Inr (new c)
                  \<and> length (new c) = prod_list (block_shape sizes)"
  shows "\<exists>xs. snd (transpose_multi op fn r sizes g data C)
                 = Inr \<lparr>shape = take (nat (dr_dim r)) (block_shape sizes) @ [C], dtype = dtype data,
                        elems = xs\<rparr>
             \<and> length xs = prod_list (block_shape sizes) * C
             \<and> (\<forall>c < C. chunk (prod_list (block_shape sizes)) c xs = new c)"
proof -
  let ?P = "block_shape sizes"
  let ?buf = "fresh g (?P @ [C]) (dtype data)"
  have bl: "butlast (shape ?buf) = ?P" by simp
  have range: "\<forall>ic \<in> set [0 ..< C]. ic * prod_list (butlast (shape ?buf)) + prod_list (butlast (shape ?buf))
           \<le> length (elems ?buf)"
  proof
    fix ic assume "ic \<in> set [0 ..< C]"
    then have "Suc ic \<le> C" by simp
    then have "Suc ic * prod_list ?P \<le> C * prod_list ?P" by (rule mult_le_mono1)
    then show "ic * prod_list (butlast (shape ?buf)) + prod_list (butlast (shape ?buf))
           \<le> length (elems ?buf)"
      by (simp add: mult.commute)
  qed
  have dist: "distinct [0 ..< C]" by simp
  have calls': "\<forall>ic \<in> set [0 ..< C]. \<exists>a new. reshapeTo3d r data (Some ic) = Inr a
              \<and> fn a (component_view ?buf ic) = Inr new"
    using calls by auto
  from transpose_loop_runs [OF dist range calls', of op]
  obtain tr1 filled where loop: "transpose_loop op fn r data [0 ..< C] ?buf = (tr1, Inr filled)"
    by blast
  note L = transpose_loop_success [OF loop dist range, unfolded bl]
  have sf: "shape filled = ?P @ [C]" and df: "dtype filled = dtype data"
    and lf: "length (elems filled) = prod_list ?P * C"
    using L by simp_all
  have ch: "chunk (prod_list ?P) c (elems filled) = new c" if "c < C" for c
  proof -
    from L have "\<forall>ic \<in> set [0 ..< C]. \<exists>a new. reshapeTo3d r data (Some ic) = Inr a
              \<and> fn a (component_view ?buf ic) = Inr new
              \<and> chunk (prod_list ?P) ic (elems filled)
                  = write_elems (chunk (prod_list ?P) ic (elems ?buf)) new"
      by blast
    moreover from that have "c \<in> set [0 ..< C]" by simp
    ultimately obtain a n' where a: "reshapeTo3d r data (Some c) = Inr a"
      and n': "fn a (component_view ?buf c) = Inr n'"
      and c: "chunk (prod_list ?P) c (elems filled)
                = write_elems (chunk (prod_list ?P) c (elems ?buf)) n'"
      by blast
    from that calls a n' have eq: "n' = new c" and ln: "length (new c) = prod_list ?P" by auto
    have "c * prod_list ?P + prod_list ?P \<le> length (elems ?buf)"
      using range that by simp
    then have "length (chunk (prod_list ?P) c (elems ?buf)) = prod_list ?P"
      by (rule chunk_length)
    with ln have "write_elems (chunk (prod_list ?P) c (elems ?buf)) (new c) = new c"
      by (intro write_elems_same_length) simp
    with c eq show ?thesis by simp
  qed
  have n4: "ndim filled = 4" using sf len by (simp add: ndim_def)
  let ?B = "\<lparr>shape = take (nat (dr_dim r)) ?P @ [C], dtype = dtype data, elems = elems filled\<rparr>"
  have "reshapeFrom3d r filled = Inr ?B"
    unfolding reshapeFrom3d_4_iff [OF n4] using pad sf df dle len by simp
  with nonneg loop have "\<exists>tr. transpose_multi op fn r sizes g data C = (tr, Inr ?B)"
    unfolding transpose_multi_Inr_iff by blast
  then have "snd (transpose_multi op fn r sizes g data C) = Inr ?B" by auto
  with lf ch show ?thesis by blast
qed

lemma transpose_inverseD:
  assumes "transpose_inverse fwd bwd s3 sp"
    and "shape a = s3" "length (elems a) = prod_list s3" "list_all isreal (elems a)"
    and "shape out = sp" "length (elems out) = prod_list sp" "dtype out = dtype a"
    and "shape out' = s3" "length (elems out') = prod_list s3" "dtype out' = dtype a"
  shows "\<exists>new. fwd a out = Inr new \<and> length new = prod_list sp \<and> list_all isreal new
                 \<and> bwd \<lparr>shape = sp, dtype = dtype a, elems = new\<rparr> out' = Inr (elems a)"
  using assms unfolding transpose_inverse_def by blast

lemma append_eq_take_drop:
  assumes "xs @ ys = zs" "length xs = d"
  shows "take d zs = xs" "drop d zs = ys"
  using assms by auto

lemma round_trip_single:
  fixes A :: "('v::zero) ndarray"
  assumes len: "length psz = 3" "length nsz = 3"
    and d: "nat (dr_dim r) \<le> 3"
    and nonneg: "\<forall>n \<in> set nsz. 0 \<le> sint n"
    and inverse: "transpose_inverse fwd bwd (block_shape nsz) (block_shape psz)"
    and lenA: "length (elems A) = prod_list (shape A)"
    and nd: "int (ndim A) = dr_dim r"
    and padS: "shape A @ replicate (3 - nat (dr_dim r)) 1 = block_shape nsz"
    and real: "all_isreal A"
    and run: "transpose_single op fwd r psz g A = (tr, Inr B)"
  shows "all_isreal B \<and> int (ndim B) = dr_dim r
       \<and> snd (transpose_single op' bwd r nsz g' B) = Inr A"
proof -
  let ?d = "nat (dr_dim r)"
  let ?S = "block_shape nsz" and ?P = "block_shape psz"
  have ndA: "ndim A = ?d" using nd by simp
  then have lA: "length (shape A) = ?d" by (simp add: ndim_def)
  note S1 = transpose_single_success [OF run len(1)]
  have takeS: "take ?d ?S = shape A" and dropS: "drop ?d ?S = replicate (3 - ?d) 1"
    using append_eq_take_drop [OF padS lA] by simp_all
  have prodS: "prod_list ?S = prod_list (shape A)"
    using prod_list_take_pad [OF dropS] takeS by simp
  let ?a = "A\<lparr>shape := shape A @ replicate (3 - ndim A) 1\<rparr>"
  from S1(4) obtain new where fw: "fwd ?a (fresh g ?P (dtype A)) = Inr new"
    and B: "B = \<lparr>shape = take ?d ?P, dtype = dtype A,
              elems = write_elems (elems (fresh g ?P (dtype A))) new\<rparr>"
    by blast
  have sa: "shape ?a = ?S" using padS ndA by simp
  have la: "length (elems ?a) = prod_list ?S" using lenA prodS by simp
  have ra: "list_all isreal (elems ?a)" using real by (simp add: all_isreal_def)
  from transpose_inverseD [OF inverse sa la ra, of "fresh g ?P (dtype A)" "fresh g' ?S (dtype A)"]
  obtain new' where "fwd ?a (fresh g ?P (dtype A)) = Inr new'"
    and ln': "length new' = prod_list ?P" and rn': "list_all isreal new'"
    and bw': "bwd \<lparr>shape = ?P, dtype = dtype ?a, elems = new'\<rparr> (fresh g' ?S (dtype A)) = Inr (elems ?a)"
    by auto
  with fw have nn: "new' = new" by simp
  have ln: "length new = prod_list ?P" and rn: "list_all isreal new"
    and bw: "bwd \<lparr>shape = ?P, dtype = dtype A, elems = new\<rparr> (fresh g' ?S (dtype A)) = Inr (elems A)"
    using ln' rn' bw' unfolding nn by simp_all
  have "write_elems (elems (fresh g ?P (dtype A))) new = new"
    by (rule write_elems_same_length) (simp add: ln)
  with B have B': "B = \<lparr>shape = take ?d ?P, dtype = dtype A, elems = new\<rparr>" by simp
  have realB: "all_isreal B" using rn by (simp add: B' all_isreal_def)
  have ndB: "ndim B = ?d" using d len(1) by (simp add: B' ndim_def)
  have padB: "B\<lparr>shape := shape B @ replicate (3 - ndim B) 1\<rparr>
                = \<lparr>shape = ?P, dtype = dtype A, elems = new\<rparr>"
  proof -
    have "take ?d ?P @ replicate (3 - ?d) 1 = ?P"
      using S1(3) by (metis append_take_drop_id)
    then show ?thesis by (simp add: B' ndim_def ndB [unfolded ndim_def B', simplified])
  qed
  have fn: "bwd (B\<lparr>shape := shape B @ replicate (3 - ndim B) 1\<rparr>) (fresh g' ?S (dtype B)) = Inr (elems A)"
    unfolding padB using bw by (simp add: B')
  have "snd (transpose_single op' bwd r nsz g' B)
          = Inr \<lparr>shape = take ?d ?S, dtype = dtype B, elems = elems A\<rparr>"
  proof (rule transpose_single_runs [where fn = bwd and data = B and new = "elems A"])
    show "\<forall>n \<in> set nsz. 0 \<le> sint n" by (rule nonneg)
    show "length nsz = 3" by (rule len(2))
    show "int (ndim B) = dr_dim r" using ndB nd ndA by simp
    show "ndim B \<le> 3" using ndB d by simp
    show "drop ?d ?S = replicate (3 - ?d) 1" by (rule dropS)
    show "bwd (B\<lparr>shape := shape B @ replicate (3 - ndim B) 1\<rparr>) (fresh g' ?S (dtype B)) = Inr (elems A)"
      by (rule fn)
    show "length (elems A) = prod_list ?S" using lenA prodS by simp
  qed
  also have "\<lparr>shape = take ?d ?S, dtype = dtype B, elems = elems A\<rparr> = A"
    by (simp add: takeS B')
  finally show ?thesis using realB ndB nd ndA by simp
qed

lemma fresh_component_view:
  assumes "c < C"
  shows "shape (component_view (fresh g (P @ [C]) dt) c) = P"
    and "dtype (component_view (fresh g (P @ [C]) dt) c) = dt"
    and "length (elems (component_view (fresh g (P @ [C]) dt) c)) = prod_list P"
proof -
  have "c * prod_list P + prod_list P \<le> length (elems (fresh g (P @ [C]) dt))"
    by (rule chunk_in_range [OF assms]) (simp add: mult.commute)
  then show "length (elems (component_view (fresh g (P @ [C]) dt) c)) = prod_list P"
    by (simp add: component_view_chunk chunk_length del: fresh_simps(3))
qed (simp_all add: component_view_chunk)

lemma round_trip_multi:
  fixes A :: "('v::zero) ndarray"
  assumes len: "length psz = 3" "length nsz = 3"
    and d: "nat (dr_dim r) \<le> 3" "0 \<le> dr_dim r"
    and nonneg: "\<forall>n \<in> set nsz. 0 \<le> sint n"
    and inverse: "transpose_inverse fwd bwd (block_shape nsz) (block_shape psz)"
    and lenA: "length (elems A) = prod_list (shape A)"
    and nd: "int (ndim A) = dr_dim r + 1"
    and padS: "butlast (shape A) @ replicate (3 - nat (dr_dim r)) 1 = block_shape nsz"
    and C: "C = last (shape A)"
    and real: "all_isreal A"
    and run: "transpose_multi op fwd r psz g A C = (tr, Inr B)"
  shows "all_isreal B \<and> int (ndim B) = dr_dim r + 1 \<and> last (shape B) = C
       \<and> snd (transpose_multi op' bwd r nsz g' B C) = Inr A"
proof -
  let ?d = "nat (dr_dim r)"
  let ?S = "block_shape nsz" and ?P = "block_shape psz"
  let ?nS = "prod_list ?S" and ?nP = "prod_list ?P"
  let ?bufP = "fresh g (?P @ [C]) (dtype A)" and ?bufS = "fresh g' (?S @ [C]) (dtype A)"
  have ndA: "ndim A = Suc ?d" using nd d(2) by simp
  then have lA: "length (shape A) = Suc ?d" by (simp add: ndim_def)
  then have ne: "shape A \<noteq> []" by auto
  have lb: "length (butlast (shape A)) = ?d" using lA by simp
  have shA: "shape A = butlast (shape A) @ [C]" using ne C by simp
  have takeS: "take ?d ?S = butlast (shape A)" and dropS: "drop ?d ?S = replicate (3 - ?d) 1"
    using append_eq_take_drop [OF padS lb] by simp_all
  have prodS: "?nS = prod_list (butlast (shape A))"
    using prod_list_take_pad [OF dropS] takeS by simp
  have "prod_list (shape A) = prod_list (butlast (shape A)) * C"
    by (subst shA) simp
  with lenA prodS have lenA': "length (elems A) = ?nS * C" by simp
  note M = transpose_multi_success [OF run len(1) d(1)]
  have key: "list_all isreal (chunk ?nP c (elems B))
       \<and> bwd \<lparr>shape = ?P, dtype = dtype A, elems = chunk ?nP c (elems B)\<rparr> (component_view ?bufS c)
           = Inr (chunk ?nS c (elems A))"
    if c: "c < C" for c
  proof -
    from M(6) c obtain a new where a: "reshapeTo3d r A (Some c) = Inr a"
      and fw: "fwd a (component_view ?bufP c) = Inr new"
      and ch: "chunk ?nP c (elems B) = write_elems (elems (component_view ?bufP c)) new"
      by blast
    from a have a': "a = \<lparr>shape = butlast (shape A) @ replicate (4 - ndim A) 1, dtype = dtype A,
             elems = chunk (prod_list (butlast (shape A))) c (elems A)\<rparr>"
      by (simp add: reshapeTo3d_Some_iff)
    have sa: "shape a = ?S" using padS ndA by (simp add: a')
    have ea: "elems a = chunk ?nS c (elems A)" by (simp add: a' prodS)
    have la: "length (elems a) = ?nS"
      unfolding ea by (rule chunk_length [OF chunk_in_range [OF c lenA']])
    have ra: "list_all isreal (elems a)"
      using real set_chunk_subset [of ?nS c "elems A"]
      unfolding ea all_isreal_def list_all_iff by blast
    have da: "dtype a = dtype A" by (simp add: a')
    note vP = fresh_component_view [OF c, of g ?P "dtype A"]
    note vS = fresh_component_view [OF c, of g' ?S "dtype A"]
    from transpose_inverseD [OF inverse sa la ra vP(1) vP(3) _ vS(1) vS(3), of ]
    obtain new' where "fwd a (component_view ?bufP c) = Inr new'"
      and ln': "length new' = ?nP" and rn': "list_all isreal new'"
      and bw': "bwd \<lparr>shape = ?P, dtype = dtype a, elems = new'\<rparr> (component_view ?bufS c) = Inr (elems a)"
      using vP(2) vS(2) da by auto
    with fw have nn: "new' = new" by simp
    have "write_elems (elems (component_view ?bufP c)) new = new"
      by (rule write_elems_same_length) (simp add: vP(3) ln' [unfolded nn])
    with ch have "chunk ?nP c (elems B) = new" by simp
    with rn' bw' show ?thesis unfolding nn da ea by simp
  qed
  have lB: "length (elems B) = ?nP * C" by (rule M(5))
  have "\<forall>x \<in> set (elems B). isreal x"
  proof (rule chunks_all [OF lB])
    show "\<forall>c<C. \<forall>x\<in>set (chunk ?nP c (elems B)). isreal x"
      using key unfolding list_all_iff by blast
  qed
  then have realB: "all_isreal B" by (simp add: all_isreal_def list_all_iff)
  have ltP: "length (take ?d ?P) = ?d" using d(1) len(1) by simp
  have ndB: "ndim B = Suc ?d" unfolding ndim_def M(3) using ltP by simp
  have lastB: "last (shape B) = C" unfolding M(3) by simp
  have blB: "butlast (shape B) = take ?d ?P" unfolding M(3) by simp
  have padP: "take ?d ?P @ replicate (3 - ?d) 1 = ?P"
    using M(2) by (metis append_take_drop_id)
  have prodP: "prod_list (take ?d ?P) = ?nP" by (rule prod_list_take_pad [OF M(2)])
  have calls: "\<forall>c < C. \<exists>a. reshapeTo3d r B (Some c) = Inr a
       \<and> bwd a (component_view (fresh g' (?S @ [C]) (dtype B)) c) = Inr (chunk ?nS c (elems A))
       \<and> length (chunk ?nS c (elems A)) = ?nS"
  proof (intro allI impI)
    fix c assume c: "c < C"
    have "reshapeTo3d r B (Some c)
            = Inr \<lparr>shape = ?P, dtype = dtype A, elems = chunk ?nP c (elems B)\<rparr>"
      unfolding reshapeTo3d_Some_iff using ndB c lastB d(1,2) blB padP prodP M(4)
      by simp
    moreover have "length (chunk ?nS c (elems A)) = ?nS"
      by (rule chunk_length [OF chunk_in_range [OF c lenA']])
    ultimately show "\<exists>a. reshapeTo3d r B (Some c) = Inr a
       \<and> bwd a (component_view (fresh g' (?S @ [C]) (dtype B)) c) = Inr (chunk ?nS c (elems A))
       \<and> length (chunk ?nS c (elems A)) = ?nS"
      using key [OF c] M(4) by simp
  qed
  from transpose_multi_runs [OF nonneg len(2) d(1) dropS calls, of op']
  obtain xs where res: "snd (transpose_multi op' bwd r nsz g' B C)
                 = Inr \<lparr>shape = take ?d ?S @ [C], dtype = dtype B, elems = xs\<rparr>"
    and lxs: "length xs = ?nS * C"
    and cxs: "\<forall>c < C. chunk ?nS c xs = chunk ?nS c (elems A)"
    by blast
  have "xs = elems A" by (rule chunks_eq [OF lxs lenA' cxs])
  then have "\<lparr>shape = take ?d ?S @ [C], dtype = dtype B, elems = xs\<rparr> = A"
    using takeS shA M(4) by simp
  with res realB ndB lastB d(2) show ?thesis by simp
qed

text \<open>
  C1. For an adapter built by the constructor over a partition with non-negative natural
  extents whose transpose from the pencil undoes its transpose to the pencil: when
  \<^verbatim>\<open>transposeToPencil\<close> returns \<open>B\<close> for a natural-layout array \<open>A\<close>, then
  \<^verbatim>\<open>transposeFromPencil\<close> returns \<open>A\<close> for \<open>B\<close>: the same shape, element type and
  elements, whatever the fresh buffers held.
\<close>

theorem round_trip:
  fixes A :: "('v::zero) ndarray"
  assumes init: "TransposeWrapper_init (T3d gp) direction dimension = (tr0, Inr w)"
    and sizes: "\<forall>n \<in> set (self_3d_size w). 0 \<le> sint n"
    and inverse: "transpose_inverse (to_pencil_fn gp direction) (from_pencil_fn gp direction)
                    (block_shape (self_3d_size w)) (block_shape (self_pencil_size w))"
    and layout: "natural_layout w A"
    and to: "transposeToPencil w g A = (tr, Inr B)"
  shows "snd (transposeFromPencil w g' B) = Inr A"
proof -
  note f = init_facts [OF init]
  let ?d = "nat dimension"
  let ?r = "self_data_reshaper w"
  have gp: "self_grid_partition w = gp" using f(9) by simp
  have dr: "dr_dim ?r = dimension" by (rule f(8))
  have dle: "nat (dr_dim ?r) \<le> 3" "0 \<le> dr_dim ?r" using f(3) dr by auto
  from to have real: "all_isreal A" by (auto simp: transposeToPencil_eq split: if_splits)
  from layout have lenA: "length (elems A) = prod_list (shape A)"
    and nd: "int (ndim A) = dimension \<or> int (ndim A) = dimension + 1"
    and pad: "take ?d (shape A) @ replicate (3 - ?d) 1 = block_shape (self_3d_size w)"
    unfolding natural_layout_def f(1) by simp_all
  from nd show ?thesis
  proof
    assume ndA: "int (ndim A) = dimension"
    then have nc: "num_components (self_dim w) A = 1" by (simp add: num_components_def f(1))
    have "take ?d (shape A) = shape A" using ndA by (simp add: ndim_def)
    with pad have padS: "shape A @ replicate (3 - nat (dr_dim ?r)) 1 = block_shape (self_3d_size w)"
      by (simp add: dr)
    from to transposeToPencil_real(1) [OF real nc, of g]
    have run: "transpose_single (to_pencil_op direction) (to_pencil_fn gp direction) ?r
                 (self_pencil_size w) g A = (tr, Inr B)"
      by (simp add: f(2) gp)
    from round_trip_single [OF f(6) f(7) dle(1) sizes inverse lenA _ padS real run,
        of "from_pencil_op direction" g'] ndA dr
    have realB: "all_isreal B" and ndB: "int (ndim B) = dimension"
      and res: "snd (transpose_single (from_pencil_op direction) (from_pencil_fn gp direction) ?r
                 (self_3d_size w) g' B) = Inr A"
      by simp_all
    from ndB have ncB: "num_components (self_dim w) B = 1" by (simp add: num_components_def f(1))
    show ?thesis
      unfolding transposeFromPencil_real(1) [OF realB ncB] using res by (simp add: f(2) gp)
  next
    assume ndA: "int (ndim A) = dimension + 1"
    define C where "C = last (shape A)"
    have lA: "length (shape A) = Suc ?d" using ndA f(3) by (auto simp: ndim_def)
    then have ne: "shape A \<noteq> []" by auto
    have "shape A ! ?d = last (shape A)" using lA ne by (simp add: last_conv_nth)
    with ndA have nc: "num_components (self_dim w) A = C"
      by (simp add: num_components_def f(1) C_def)
    have "take ?d (shape A) = butlast (shape A)" using lA by (simp add: butlast_conv_take)
    with pad have padS: "butlast (shape A) @ replicate (3 - nat (dr_dim ?r)) 1
                          = block_shape (self_3d_size w)"
      by (simp add: dr)
    have nd': "int (ndim A) = dr_dim ?r + 1" using ndA dr by simp
    have C1: "C \<noteq> 1"
    proof
      assume "C = 1"
      with to transposeToPencil_real(1) [OF real, of w g] nc
      have "transpose_single (to_pencil_op (self_direction w))
              (to_pencil_fn (self_grid_partition w) (self_direction w)) ?r
              (self_pencil_size w) g A = (tr, Inr B)" by simp
      from transpose_single_success(2) [OF this f(6)] nd' show False by simp
    qed
    with nc have nc1: "num_components (self_dim w) A \<noteq> 1" by simp
    from to transposeToPencil_real(2) [OF real nc1, of g] nc
    have run: "transpose_multi (to_pencil_op direction) (to_pencil_fn gp direction) ?r
                 (self_pencil_size w) g A C = (tr, Inr B)"
      by (simp add: f(2) gp)
    from round_trip_multi [OF f(6) f(7) dle sizes inverse lenA nd' padS C_def real run,
        of "from_pencil_op direction" g'] dr
    have realB: "all_isreal B" and ndB: "int (ndim B) = dimension + 1"
      and lastB: "last (shape B) = C"
      and res: "snd (transpose_multi (from_pencil_op direction) (from_pencil_fn gp direction) ?r
                 (self_3d_size w) g' B C) = Inr A"
      by simp_all
    have lB: "length (shape B) = Suc ?d" using ndB f(3) by (auto simp: ndim_def)
    then have "shape B \<noteq> []" by auto
    with lB have "shape B ! ?d = last (shape B)" by (simp add: last_conv_nth)
    with ndB lastB have ncB: "num_components (self_dim w) B = C"
      by (simp add: num_components_def f(1))
    with C1 have ncB1: "num_components (self_dim w) B \<noteq> 1" by simp
    show ?thesis
      unfolding transposeFromPencil_real(2) [OF realB ncB1] ncB using res by (simp add: f(2) gp)
  qed
qed

theorem round_trip_witness:
  "TransposeWrapper_init (T3d ex_gp) 1 3 = (map T3dGet (init_getters 1), Inr ex_w)
   \<and> snd (transposeToPencil ex_w ex_g ex_A) = Inr ex_B
   \<and> snd (transposeFromPencil ex_w ex_g ex_B) = Inr ex_A"
proof -
  have sizes: "\<forall>n \<in> set (self_3d_size ex_w). 0 \<le> sint n"
    by (simp add: ex_w_def)
  have inverse: "transpose_inverse (to_pencil_fn ex_gp 1) (from_pencil_fn ex_gp 1)
                    (block_shape (self_3d_size ex_w)) (block_shape (self_pencil_size ex_w))"
    unfolding transpose_inverse_def
    by (simp add: to_pencil_fn_def from_pencil_fn_def ex_gp_def ex_rev_def ex_w_def
        block_shape_def list_all_iff)
  have layout: "natural_layout ex_w ex_A"
    by (simp add: natural_layout_def ex_w_def ex_A_def ndim_def block_shape_def)
  note run = run_eqI [OF ex_to_pencil]
  from round_trip [OF ex_init sizes inverse layout run, of ex_g] ex_init ex_to_pencil
  show ?thesis by simp
qed

end
